theory Spec2Isabelle
  imports Main "HOL-Library.Product_Lexorder" "HOL-Library.Multiset"
begin

section \<open>Strings\<close>

text \<open>
  Python 3 strings and SQL text are sequences of Unicode code points: \<open>len\<close> and
  \<open>LENGTH\<close> count code points, and the rule keywords and payment phrases of this
  program are Chinese. A string is therefore a list of code points; \<open>ustr\<close> embeds an
  ASCII literal.
\<close>

type_synonym uchar = nat
type_synonym ustring = "uchar list"

definition ustr :: "string \<Rightarrow> ustring" where
  "ustr s = map of_char s"

text \<open>The characters \<open>str.strip()\<close> removes and \<open>\s\<close> matches (\<open>str.isspace\<close>).\<close>

definition py_isspace :: "uchar \<Rightarrow> bool" where
  "py_isspace c \<longleftrightarrow>
     (9 \<le> c \<and> c \<le> 13) \<or> (28 \<le> c \<and> c \<le> 32) \<or> c = 133 \<or> c = 160 \<or> c = 5760 \<or>
     (8192 \<le> c \<and> c \<le> 8202) \<or> c = 8232 \<or> c = 8233 \<or> c = 8239 \<or> c = 8287 \<or> c = 12288"

definition strip :: "ustring \<Rightarrow> ustring" where
  "strip s = rev (dropWhile py_isspace (rev (dropWhile py_isspace s)))"

text \<open>\<open>s.split('\n')\<close>: never empty, \<open>''.split('\n') == ['']\<close>.\<close>

fun split_nl :: "ustring \<Rightarrow> ustring list" where
  "split_nl [] = [[]]"
| "split_nl (c # cs) =
     (if c = 10 then [] # split_nl cs
      else (case split_nl cs of [] \<Rightarrow> [[c]] | l # ls \<Rightarrow> (c # l) # ls))"

text \<open>\<open>'\n'.join(lines)\<close>.\<close>

fun join_nl :: "ustring list \<Rightarrow> ustring" where
  "join_nl [] = []"
| "join_nl [l] = l"
| "join_nl (l # m # ls) = l @ 10 # join_nl (m # ls)"

text \<open>\<open>x in s\<close> for strings: \<open>x\<close> occurs in \<open>s\<close> as a contiguous block.\<close>

fun py_in :: "ustring \<Rightarrow> ustring \<Rightarrow> bool" where
  "py_in x [] = (x = [])"
| "py_in x (c # cs) = (take (length x) (c # cs) = x \<or> py_in x cs)"

section \<open>Tables\<close>

text \<open>
  The columns of \<open>cards\<close> and \<open>delivery_rules\<close> (models.py). A nullable column is
  an option. The primary key of a card is the key of the table; \<open>delivery_rules\<close> is a
  list in the order the engine scans it, each row carrying its id.
\<close>

type_synonym timestamp = nat

record card =
  card_name :: ustring
  card_type :: ustring
  api_config :: "ustring option"
  text_content :: "ustring option"
  data_content :: "ustring option"
  image_url :: "ustring option"
  card_description :: "ustring option"
  card_enabled :: "bool option"
  delay_seconds :: "int option"
  is_multi_spec :: "bool option"
  spec_name :: "ustring option"
  spec_value :: "ustring option"
  card_user_id :: int
  card_created_at :: "timestamp option"
  card_updated_at :: "timestamp option"

record rule =
  rule_id :: int
  keyword :: ustring
  card_id :: int
  delivery_count :: "int option"
  rule_enabled :: "bool option"
  rule_description :: "ustring option"
  delivery_times :: "int option"
  rule_user_id :: "int option"
  rule_created_at :: "timestamp option"
  rule_updated_at :: "timestamp option"

text \<open>
  \<open>available\<close> says whether statements sent through the session succeed; when it is
  false \<open>session.execute\<close>, \<open>query.first\<close> and \<open>session.commit\<close> raise.
\<close>

record db =
  cards :: "int \<rightharpoonup> card"
  rules :: "rule list"
  available :: bool

section \<open>Stock consumption\<close>

text \<open>
  \<open>consume_batch_data\<close> (db_manager.py). The result is the returned line (\<open>None\<close> for
  Python's \<open>None\<close>) and the database after the call. The only assignment is to
  \<open>card.data_content\<close>; the UPDATE the commit sends also refreshes
  \<open>updated_at\<close>, which models.py declares with \<open>onupdate=func.now()\<close>, to the
  statement time \<open>now\<close>. Any exception is answered by a rollback and \<open>None\<close>.
\<close>

definition consume_batch_data :: "timestamp \<Rightarrow> int \<Rightarrow> db \<Rightarrow> ustring option \<times> db" where
  "consume_batch_data now cid d =
     (if \<not> available d then (None, d)
      else case cards d cid of
        None \<Rightarrow> (None, d)
      | Some c \<Rightarrow>
          if card_type c \<noteq> ustr ''data'' then (None, d)
          else (case data_content c of
            None \<Rightarrow> (None, d)
          | Some content \<Rightarrow>
              if content = [] then (None, d)
              else (case [strip line. line \<leftarrow> split_nl content, strip line \<noteq> []] of
                [] \<Rightarrow> (None, d)
              | first_line # remaining_lines \<Rightarrow>
                  (Some first_line,
                   d\<lparr>cards := (cards d)(cid \<mapsto>
                        c\<lparr>data_content := Some (join_nl remaining_lines),
                          card_updated_at := Some now\<rparr>)\<rparr>))))"

text \<open>The non-blank stock lines of a stored content, trimmed, in order.\<close>

definition stock_lines :: "ustring option \<Rightarrow> ustring list" where
  "stock_lines content =
     (case content of None \<Rightarrow> []
      | Some s \<Rightarrow> [strip line. line \<leftarrow> split_nl s, strip line \<noteq> []])"


text \<open>A card with every optional column at its default, and a catalogue holding one
  \<open>data\<close> card, id 1, whose content is \<open>"A\nB"\<close>.\<close>

definition blank_card :: card where
  "blank_card = \<lparr>card_name = ustr ''card'', card_type = ustr ''text'', api_config = None,
     text_content = None, data_content = None, image_url = None, card_description = None,
     card_enabled = Some True, delay_seconds = Some 0, is_multi_spec = Some False,
     spec_name = None, spec_value = None, card_user_id = 1,
     card_created_at = Some 0, card_updated_at = Some 0\<rparr>"

definition stock_card :: card where
  "stock_card = blank_card\<lparr>card_type := ustr ''data'',
     data_content := Some (ustr ''A'' @ 10 # ustr ''B'')\<rparr>"

definition stock_db :: db where
  "stock_db = \<lparr>cards = [1 \<mapsto> stock_card], rules = [], available = True\<rparr>"



section \<open>The SQL engine\<close>

text \<open>
  The matcher's queries are raw SQL, run by SQLite (the default) or PostgreSQL
  (database.py). Two things the queries rely on belong to the engine and differ between
  the two: the \<open>LIKE\<close> operator (both treat \<open>%\<close> and \<open>_\<close> in the pattern as
  wildcards; SQLite also folds ASCII case, PostgreSQL also reads a backslash as an
  escape) and the place of NULL in an ascending \<open>ORDER BY\<close> (first on SQLite, last on
  PostgreSQL). The queries are therefore modelled over an engine;
  \<open>like_op e x p\<close> is \<open>x LIKE p\<close>.
\<close>

record engine =
  like_op :: "ustring \<Rightarrow> ustring \<Rightarrow> bool"
  nulls_first :: bool

text \<open>
  Standard \<open>LIKE\<close> without an \<open>ESCAPE\<close> clause, first argument the pattern:
  \<open>%\<close> (37) stands for any run of characters, \<open>_\<close> (95) for any one character, every
  other character for itself.
\<close>

fun sql_like :: "ustring \<Rightarrow> ustring \<Rightarrow> bool" where
  "sql_like [] s = (s = [])"
| "sql_like (p # ps) [] = (p = 37 \<and> sql_like ps [])"
| "sql_like (p # ps) (c # cs) =
     (if p = 37 then sql_like ps (c # cs) \<or> sql_like (p # ps) cs
      else (p = 95 \<or> p = c) \<and> sql_like ps cs)"

definition std_engine :: engine where
  "std_engine = \<lparr>like_op = (\<lambda>x p. sql_like p x), nulls_first = True\<rparr>"

text \<open>\<open>x LIKE '%' || y || '%'\<close>.\<close>

definition like_contains :: "engine \<Rightarrow> ustring \<Rightarrow> ustring \<Rightarrow> bool" where
  "like_contains e x y = like_op e x (37 # y @ [37])"

datatype exn =
    OperationalError | AttributeError | TypeError | JSONDecodeError | ValueError | RecursionError

text \<open>Sending a statement: the rows it selects, or the driver's exception.\<close>

definition execute :: "db \<Rightarrow> 'a \<Rightarrow> exn + 'a" where
  "execute d rows = (if available d then Inr rows else Inl OperationalError)"

section \<open>Rule matching\<close>

text \<open>
  \<open>FROM delivery_rules dr LEFT JOIN cards c ON dr.card_id = c.id WHERE ...\<close>: every
  query of the matcher requires \<open>c.enabled = true\<close>, which a row without a card (all
  \<open>c\<close> columns NULL) fails, so the selected rows are pairs of a rule and its card.
  A comparison with NULL is not true: \<open>dr.enabled = true\<close> holds only for
  \<open>Some True\<close>.
\<close>

definition select_rows :: "(rule \<Rightarrow> card \<Rightarrow> bool) \<Rightarrow> db \<Rightarrow> (rule \<times> card) list" where
  "select_rows cond d =
     [(r, c). r \<leftarrow> rules d, c \<leftarrow> (case cards d (card_id r) of None \<Rightarrow> [] | Some c \<Rightarrow> [c]),
              cond r c]"

text \<open>
  \<open>dr.enabled = true AND c.enabled = true AND
  (:kw LIKE '%' || dr.keyword || '%' OR dr.keyword LIKE '%' || :kw || '%')\<close>
\<close>

definition base_cond :: "engine \<Rightarrow> ustring \<Rightarrow> rule \<Rightarrow> card \<Rightarrow> bool" where
  "base_cond e kw r c \<longleftrightarrow>
     rule_enabled r = Some True \<and> card_enabled c = Some True \<and>
     (like_contains e kw (keyword r) \<or> like_contains e (keyword r) kw)"

text \<open>
  \<open>CASE WHEN :kw LIKE '%' || dr.keyword || '%' THEN LENGTH(dr.keyword)
  ELSE LENGTH(dr.keyword) / 2 END\<close>; the division is integer division.
\<close>

definition rank_score :: "engine \<Rightarrow> ustring \<Rightarrow> rule \<Rightarrow> nat" where
  "rank_score e kw r =
     (if like_contains e kw (keyword r) then length (keyword r) else length (keyword r) div 2)"

text \<open>
  The position of a nullable \<open>delivery_times\<close> under \<open>ORDER BY ... ASC\<close>.
\<close>

definition dt_key :: "engine \<Rightarrow> rule \<Rightarrow> nat \<times> int" where
  "dt_key e r =
     (case delivery_times r of
        None \<Rightarrow> (if nulls_first e then (0, 0) else (1, 0))
      | Some n \<Rightarrow> (if nulls_first e then (1, n) else (0, n)))"

text \<open>
  \<open>ORDER BY score DESC, dr.id ASC\<close> and \<open>ORDER BY score DESC, dr.delivery_times ASC\<close>.
  Rows that agree on both sort terms come out in the order the engine scanned them.
\<close>

definition order_by_id :: "engine \<Rightarrow> ustring \<Rightarrow> (rule \<times> card) list \<Rightarrow> (rule \<times> card) list" where
  "order_by_id e kw = sort_key (\<lambda>(r, c). (- int (rank_score e kw r), rule_id r))"

definition order_by_times :: "engine \<Rightarrow> ustring \<Rightarrow> (rule \<times> card) list \<Rightarrow> (rule \<times> card) list" where
  "order_by_times e kw = sort_key (\<lambda>(r, c). (- int (rank_score e kw r), dt_key e r))"

text \<open>
  \<open>get_delivery_rules_by_keyword\<close> (db_manager.py). The returned dictionaries are built
  field by field from the selected rows, in the same order; the model returns the rows.
\<close>

definition get_delivery_rules_by_keyword :: "engine \<Rightarrow> db \<Rightarrow> ustring \<Rightarrow> (rule \<times> card) list" where
  "get_delivery_rules_by_keyword e d kw =
     (case execute d (order_by_id e kw (select_rows (base_cond e kw) d)) of
        Inl ex \<Rightarrow> []
      | Inr rows \<Rightarrow> rows)"

text \<open>Python's truth value of an optional string argument.\<close>

definition py_truthy :: "ustring option \<Rightarrow> bool" where
  "py_truthy s = (case s of None \<Rightarrow> False | Some x \<Rightarrow> x \<noteq> [])"

text \<open>
  First pass: \<open>... AND c.is_multi_spec = true AND c.spec_name = :sn AND c.spec_value = :sv\<close>.
  Fallback pass: \<open>... AND (c.is_multi_spec = false OR c.is_multi_spec IS NULL)\<close>.
\<close>

definition spec_pass ::
  "engine \<Rightarrow> db \<Rightarrow> ustring \<Rightarrow> ustring option \<Rightarrow> ustring option \<Rightarrow> (rule \<times> card) list" where
  "spec_pass e d kw sn sv =
     order_by_times e kw (select_rows (\<lambda>r c. base_cond e kw r c \<and>
        is_multi_spec c = Some True \<and> spec_name c = sn \<and> spec_value c = sv) d)"

definition fallback_pass :: "engine \<Rightarrow> db \<Rightarrow> ustring \<Rightarrow> (rule \<times> card) list" where
  "fallback_pass e d kw =
     order_by_times e kw (select_rows (\<lambda>r c. base_cond e kw r c \<and>
        (is_multi_spec c = Some False \<or> is_multi_spec c = None)) d)"

text \<open>
  \<open>get_delivery_rules_by_keyword_and_spec\<close> (db_manager.py). The first pass runs only
  when both \<open>spec_name\<close> and \<open>spec_value\<close> are truthy, and its rows are returned when
  there are any; otherwise the fallback pass decides. An exception in either pass
  gives the empty list.
\<close>

definition get_delivery_rules_by_keyword_and_spec ::
  "engine \<Rightarrow> db \<Rightarrow> ustring \<Rightarrow> ustring option \<Rightarrow> ustring option \<Rightarrow> (rule \<times> card) list" where
  "get_delivery_rules_by_keyword_and_spec e d kw sn sv =
     (case (if py_truthy sn \<and> py_truthy sv then execute d (spec_pass e d kw sn sv) else Inr []) of
        Inl ex \<Rightarrow> []
      | Inr rules1 \<Rightarrow>
          if rules1 \<noteq> [] then rules1
          else (case execute d (fallback_pass e d kw) of
                  Inl ex \<Rightarrow> []
                | Inr rules2 \<Rightarrow> rules2))"

section \<open>Example catalogues\<close>

text \<open>
  A rule with every optional column at its default, and the catalogues the examples
  below run on: two rules for the keywords \<open>U+624B U+673A\<close> and
  \<open>U+624B U+673A U+58F3\<close>; a short and a long keyword; rules that differ in
  \<open>delivery_times\<close> on a generic and on a red card; a generic card that still stores
  a spec.
\<close>

definition blank_rule :: rule where
  "blank_rule = \<lparr>rule_id = 1, keyword = ustr ''abc'', card_id = 1, delivery_count = Some 1,
     rule_enabled = Some True, rule_description = None, delivery_times = Some 0,
     rule_user_id = Some 1, rule_created_at = Some 0, rule_updated_at = Some 0\<rparr>"

definition phone_db :: db where
  "phone_db = \<lparr>cards = [1 \<mapsto> blank_card\<lparr>card_name := ustr ''B''\<rparr>,
                        2 \<mapsto> blank_card\<lparr>card_name := ustr ''A''\<rparr>],
     rules = [blank_rule\<lparr>rule_id := 1, keyword := [25163, 26426], card_id := 1\<rparr>,
              blank_rule\<lparr>rule_id := 2, keyword := [25163, 26426, 22771], card_id := 2\<rparr>],
     available = True\<rparr>"

definition long_keyword_db :: db where
  "long_keyword_db = \<lparr>cards = [1 \<mapsto> blank_card],
     rules = [blank_rule\<lparr>rule_id := 1, keyword := ustr ''a''\<rparr>,
              blank_rule\<lparr>rule_id := 2, keyword := ustr ''abcdefgh''\<rparr>],
     available = True\<rparr>"

definition red_card :: card where
  "red_card = blank_card\<lparr>is_multi_spec := Some True, spec_name := Some (ustr ''color''),
     spec_value := Some (ustr ''red'')\<rparr>"

definition times_db :: db where
  "times_db = \<lparr>cards = [1 \<mapsto> blank_card, 2 \<mapsto> red_card],
     rules = [blank_rule\<lparr>rule_id := 1, delivery_times := Some 5\<rparr>,
              blank_rule\<lparr>rule_id := 2, delivery_times := Some 0\<rparr>,
              blank_rule\<lparr>rule_id := 3, card_id := 2, delivery_times := Some 5\<rparr>,
              blank_rule\<lparr>rule_id := 4, card_id := 2, delivery_times := Some 0\<rparr>],
     available = True\<rparr>"

definition blue_card :: card where
  "blue_card = blank_card\<lparr>is_multi_spec := Some False, spec_name := Some (ustr ''color''),
     spec_value := Some (ustr ''blue'')\<rparr>"

definition blue_db :: db where
  "blue_db = \<lparr>cards = [1 \<mapsto> blue_card], rules = [blank_rule], available = True\<rparr>"


section \<open>Event classification\<close>

text \<open>
  An inbound event is a tree of Python values. Dictionaries keep their items in
  insertion order; a lookup finds the first item whose key equals the key asked for.
\<close>

datatype pyval =
    PNone
  | PBool bool
  | PInt int
  | PStr ustring
  | PList "pyval list"
  | PDict "(pyval \<times> pyval) list"

text \<open>\<open>isinstance(x, dict)\<close> and the truth value of \<open>x\<close>.\<close>

fun is_dict :: "pyval \<Rightarrow> bool" where
  "is_dict (PDict kvs) = True"
| "is_dict x = False"

fun py_bool :: "pyval \<Rightarrow> bool" where
  "py_bool PNone = False"
| "py_bool (PBool b) = b"
| "py_bool (PInt n) = (n \<noteq> 0)"
| "py_bool (PStr s) = (s \<noteq> [])"
| "py_bool (PList xs) = (xs \<noteq> [])"
| "py_bool (PDict kvs) = (kvs \<noteq> [])"

text \<open>
  What the interpreter and its library contribute: \<open>json.loads\<close> on a string
  (\<open>None\<close> when it raises \<open>JSONDecodeError\<close>), \<open>str\<close> on a value, which raises
  \<open>RecursionError\<close> on a tree nested too deep and \<open>ValueError\<close> on an integer
  beyond the digit limit of the conversion, and the Unicode class of decimal digits
  that \<open>\d\<close> stands for in a \<open>str\<close> pattern.
\<close>

record pylib =
  json_loads :: "ustring \<Rightarrow> pyval option"
  py_str :: "pyval \<Rightarrow> exn + ustring"
  is_decimal :: "uchar \<Rightarrow> bool"

text \<open>Sequencing of steps that may raise: the first exception ends the block.\<close>

definition bind_exn :: "exn + 'a \<Rightarrow> ('a \<Rightarrow> exn + 'b) \<Rightarrow> exn + 'b" where
  "bind_exn m f = (case m of Inl ex \<Rightarrow> Inl ex | Inr x \<Rightarrow> f x)"

text \<open>\<open>x.get(k, dflt)\<close>: only a dictionary has the method.\<close>

definition py_get :: "pyval \<Rightarrow> ustring \<Rightarrow> pyval \<Rightarrow> exn + pyval" where
  "py_get x k dflt =
     (case x of
        PDict kvs \<Rightarrow> Inr (case map_of kvs (PStr k) of None \<Rightarrow> dflt | Some v \<Rightarrow> v)
      | _ \<Rightarrow> Inl AttributeError)"

text \<open>\<open>x.get(k1, {}).get(k2, {}) ...\<close>\<close>

fun get_path :: "pyval \<Rightarrow> ustring list \<Rightarrow> exn + pyval" where
  "get_path x [] = Inr x"
| "get_path x (k # ks) = bind_exn (py_get x k (PDict [])) (\<lambda>y. get_path y ks)"

subsection \<open>Regular expressions\<close>

text \<open>
  The patterns of the classifier are sequences of one-character items, each with a
  repetition range and at most one of them a capturing group. All repetitions are
  greedy: an item first takes as many characters as it can and gives them back one at
  a time while the rest of the pattern fails, as Python's backtracking matcher does.
\<close>

datatype cclass = Lit uchar | AnyOf "uchar list" | Digit | Space

datatype atom = Atom (cls: cclass) (lo: nat) (hi: "nat option") (grp: bool)

fun in_class :: "(uchar \<Rightarrow> bool) \<Rightarrow> cclass \<Rightarrow> uchar \<Rightarrow> bool" where
  "in_class isd (Lit a) c = (c = a)"
| "in_class isd (AnyOf as) c = (c \<in> set as)"
| "in_class isd Digit c = isd c"
| "in_class isd Space c = py_isspace c"

text \<open>The first success of \<open>f\<close> among \<open>n, n - 1, ..., least\<close>.\<close>

fun try_counts :: "(nat \<Rightarrow> 'a option) \<Rightarrow> nat \<Rightarrow> nat \<Rightarrow> 'a option" where
  "try_counts f least 0 = (if 0 < least then None else f 0)"
| "try_counts f least (Suc n) =
     (if Suc n < least then None
      else (case f (Suc n) of Some r \<Rightarrow> Some r | None \<Rightarrow> try_counts f least n))"

text \<open>
  A match of the pattern at the start of \<open>s\<close>: the text of the group, if one took part,
  and the number of characters matched.
\<close>

primrec match_items :: "(uchar \<Rightarrow> bool) \<Rightarrow> atom list \<Rightarrow> ustring \<Rightarrow> (ustring option \<times> nat) option" where
  "match_items isd [] s = Some (None, 0)"
| "match_items isd (a # as) s =
     (let n = length (takeWhile (in_class isd (cls a)) s);
          m = (case hi a of None \<Rightarrow> n | Some h \<Rightarrow> min n h)
      in try_counts
           (\<lambda>k. case match_items isd as (drop k s) of
                   None \<Rightarrow> None
                 | Some (cap, len) \<Rightarrow> Some (if grp a then Some (take k s) else cap, k + len))
           (lo a) m)"

text \<open>\<open>re.search(p, s)\<close>, reduced to \<open>group(1)\<close> of the leftmost match.\<close>

fun re_search :: "(uchar \<Rightarrow> bool) \<Rightarrow> atom list \<Rightarrow> ustring \<Rightarrow> ustring option option" where
  "re_search isd p [] = map_option fst (match_items isd p [])"
| "re_search isd p (c # cs) =
     (case match_items isd p (c # cs) of
        Some (cap, len) \<Rightarrow> Some cap
      | None \<Rightarrow> re_search isd p cs)"

text \<open>
  \<open>re.findall(p, s)\<close> for a pattern with one group: the group of every match, from
  left to right, each search starting where the previous match ended. \<open>skip\<close> counts
  the characters of the previous match still to pass. A group that did not take part
  gives the empty string.
\<close>

fun findall :: "(uchar \<Rightarrow> bool) \<Rightarrow> atom list \<Rightarrow> ustring \<Rightarrow> nat \<Rightarrow> ustring list" where
  "findall isd p [] skip =
     (if skip = 0 then
        (case match_items isd p [] of
           None \<Rightarrow> []
         | Some (cap, len) \<Rightarrow> [case cap of None \<Rightarrow> [] | Some g \<Rightarrow> g])
      else [])"
| "findall isd p (c # cs) skip =
     (if 0 < skip then findall isd p cs (skip - 1)
      else (case match_items isd p (c # cs) of
              None \<Rightarrow> findall isd p cs 0
            | Some (cap, len) \<Rightarrow>
                (case cap of None \<Rightarrow> [] | Some g \<Rightarrow> g) # findall isd p cs (len - 1)))"

definition lit :: "string \<Rightarrow> atom list" where
  "lit s = map (\<lambda>c. Atom (Lit (of_char c)) 1 (Some 1) False) s"

text \<open>
  \<open>orderId=(\d+)\<close> and \<open>order_detail\?id=(\d+)\<close>, used on the card's URLs.
\<close>

definition url_orderId :: "atom list" where
  "url_orderId = lit ''orderId='' @ [Atom Digit 1 None True]"

definition url_order_detail :: "atom list" where
  "url_order_detail = lit ''order_detail?id='' @ [Atom Digit 1 None True]"

text \<open>
  The list \<open>patterns\<close>: \<open>orderId[=:](\d{10,})\<close>, \<open>order_detail\?id=(\d{10,})\<close>,
  \<open>"id"\s*:\s*"?(\d{10,})"?\<close>, \<open>bizOrderId[=:](\d{10,})\<close>. Code point 34 is the
  double quote.
\<close>

definition patterns :: "atom list list" where
  "patterns =
     [lit ''orderId'' @ [Atom (AnyOf (ustr ''=:'')) 1 (Some 1) False, Atom Digit 10 None True],
      lit ''order_detail?id='' @ [Atom Digit 10 None True],
      [Atom (Lit 34) 1 (Some 1) False] @ lit ''id'' @ [Atom (Lit 34) 1 (Some 1) False,
         Atom Space 0 None False, Atom (Lit 58) 1 (Some 1) False, Atom Space 0 None False,
         Atom (Lit 34) 0 (Some 1) False, Atom Digit 10 None True, Atom (Lit 34) 0 (Some 1) False],
      lit ''bizOrderId'' @ [Atom (AnyOf (ustr ''=:'')) 1 (Some 1) False, Atom Digit 10 None True]]"

text \<open>
  \<open>for pattern in patterns: matches = re.findall(pattern, message_str);
  if matches: order_id = matches[0]; break\<close>
\<close>

fun scan_patterns :: "(uchar \<Rightarrow> bool) \<Rightarrow> atom list list \<Rightarrow> ustring \<Rightarrow> ustring option" where
  "scan_patterns isd [] s = None"
| "scan_patterns isd (p # ps) s =
     (case findall isd p s 0 of
        [] \<Rightarrow> scan_patterns isd ps s
      | m # ms \<Rightarrow> Some m)"

subsection \<open>Order id extraction\<close>

text \<open>
  \<open>_extract_order_id\<close> (tests/test_auto_delivery_fixes.py, copied there from the
  classifier). \<open>content_json_str_of\<close> is the guarded walk to
  \<open>message['1']['6']['3']['5']\<close>, which cannot raise.
\<close>

definition content_json_str_of :: "pyval \<Rightarrow> pyval" where
  "content_json_str_of message_1 =
     (if is_dict message_1 then
        (case py_get message_1 (ustr ''6'') (PDict []) of
           Inr message_1_6 \<Rightarrow>
             if is_dict message_1_6 then
               (case py_get message_1_6 (ustr ''3'') (PDict []) of
                  Inr message_1_6_3 \<Rightarrow>
                    if is_dict message_1_6_3 then
                      (case py_get message_1_6_3 (ustr ''5'') (PStr []) of
                         Inr v \<Rightarrow> v
                       | Inl ex \<Rightarrow> PStr [])
                    else PStr []
                | Inl ex \<Rightarrow> PStr [])
             else PStr []
         | Inl ex \<Rightarrow> PStr [])
      else PStr [])"

text \<open>
  \<open>json.loads(x)\<close> and \<open>re.search(p, x)\<close> on a value that need not be a string.
  The result of a search is \<open>None\<close> or a match, given by its \<open>group(1)\<close>.
\<close>

definition loads :: "pylib \<Rightarrow> pyval \<Rightarrow> exn + pyval" where
  "loads lib x =
     (case x of
        PStr s \<Rightarrow> (case json_loads lib s of None \<Rightarrow> Inl JSONDecodeError | Some v \<Rightarrow> Inr v)
      | _ \<Rightarrow> Inl TypeError)"

definition search_group :: "pylib \<Rightarrow> atom list \<Rightarrow> pyval \<Rightarrow> exn + ustring option option" where
  "search_group lib p x =
     (case x of
        PStr s \<Rightarrow> Inr (re_search (is_decimal lib) p s)
      | _ \<Rightarrow> Inl TypeError)"

text \<open>\<open>not order_id\<close>: \<open>None\<close> or the empty string.\<close>

definition no_id :: "ustring option \<Rightarrow> bool" where
  "no_id order_id \<longleftrightarrow> order_id = None \<or> order_id = Some []"

text \<open>
  The body of the first inner \<open>try\<close>, run when \<open>content_json_str\<close> is truthy: the
  value of \<open>order_id\<close> at its end, or the exception that leaves it. An exception can
  only leave it while \<open>order_id\<close> is still \<open>None\<close>.
\<close>

definition method1 :: "pylib \<Rightarrow> pyval \<Rightarrow> exn + ustring option" where
  "method1 lib content_json_str =
     bind_exn (loads lib content_json_str) (\<lambda>content_data.
     bind_exn (get_path content_data
                 [ustr ''dxCard'', ustr ''item'', ustr ''main'', ustr ''exContent'', ustr ''button''])
       (\<lambda>button.
     bind_exn (py_get button (ustr ''targetUrl'') (PStr [])) (\<lambda>target_url.
     bind_exn (if py_bool target_url then search_group lib url_orderId target_url else Inr None)
       (\<lambda>order_match.
     let order_id = (case order_match of None \<Rightarrow> None | Some g \<Rightarrow> g) in
     if \<not> no_id order_id then Inr order_id
     else
       bind_exn (get_path content_data [ustr ''dxCard'', ustr ''item'', ustr ''main'']) (\<lambda>main.
       bind_exn (py_get main (ustr ''targetUrl'') (PStr [])) (\<lambda>main_target_url.
       bind_exn (if py_bool main_target_url
                 then search_group lib url_order_detail main_target_url else Inr None)
         (\<lambda>order_match2.
       Inr (case order_match2 of None \<Rightarrow> order_id | Some g \<Rightarrow> g))))))))"

text \<open>
  The body of the second inner \<open>try\<close>: \<open>str(message)\<close>, which may raise, then the
  scan. The result is the match the loop assigns to \<open>order_id\<close>, if there is one.
\<close>

definition method3 :: "pylib \<Rightarrow> pyval \<Rightarrow> exn + ustring option" where
  "method3 lib message =
     bind_exn (py_str lib message) (\<lambda>message_str.
       Inr (scan_patterns (is_decimal lib) patterns message_str))"

text \<open>
  \<open>order_id\<close> after the structured extraction, which swallows every exception of
  its \<open>try\<close> block.
\<close>

definition structured_order_id :: "pylib \<Rightarrow> pyval \<Rightarrow> ustring option" where
  "structured_order_id lib message_1 =
     (let content_json_str = content_json_str_of message_1
      in if py_bool content_json_str then
           (case method1 lib content_json_str of Inl ex \<Rightarrow> None | Inr r \<Rightarrow> r)
         else None)"

definition extract_order_id_body :: "pylib \<Rightarrow> pyval \<Rightarrow> exn + ustring option" where
  "extract_order_id_body lib message =
     bind_exn (py_get message (ustr ''1'') (PDict [])) (\<lambda>message_1.
     let order_id = structured_order_id lib message_1
     in Inr (if no_id order_id then
               (case method3 lib message of
                  Inl ex \<Rightarrow> order_id
                | Inr None \<Rightarrow> order_id
                | Inr (Some m) \<Rightarrow> Some m)
             else order_id))"

text \<open>The outer \<open>try ... except Exception: return None\<close>.\<close>

definition extract_order_id :: "pylib \<Rightarrow> pyval \<Rightarrow> exn + ustring option" where
  "extract_order_id lib message =
     (case extract_order_id_body lib message of Inl ex \<Rightarrow> Inr None | Inr r \<Rightarrow> Inr r)"

subsection \<open>Payment detection\<close>

text \<open>
  The trigger keywords of \<open>_is_auto_delivery_trigger\<close> and the \<open>payment_indicators\<close>
  of the non-chat detection, as code points.
\<close>

definition auto_delivery_keywords :: "ustring list" where
  "auto_delivery_keywords =
     [[91, 25105, 24050, 20184, 27454, 65292, 31561, 24453, 20320, 21457, 36135, 93],
      [91, 24050, 20184, 27454, 65292, 24453, 21457, 36135, 93],
      [25105, 24050, 20184, 27454, 65292, 31561, 24453, 20320, 21457, 36135],
      [91, 35760, 24471, 21450, 26102, 21457, 36135, 93]]"

definition payment_indicators :: "ustring list" where
  "payment_indicators =
     [[25105, 24050, 20184, 27454],
      [24050, 20184, 27454, 65292, 24453, 21457, 36135],
      [31561, 24453, 20320, 21457, 36135],
      ustr ''TRADE_PAID_DONE_SELLER'']"

fun is_auto_delivery_trigger_loop :: "ustring list \<Rightarrow> ustring \<Rightarrow> bool" where
  "is_auto_delivery_trigger_loop [] message = False"
| "is_auto_delivery_trigger_loop (k # ks) message =
     (if py_in k message then True else is_auto_delivery_trigger_loop ks message)"

definition is_auto_delivery_trigger :: "ustring \<Rightarrow> bool" where
  "is_auto_delivery_trigger message = is_auto_delivery_trigger_loop auto_delivery_keywords message"

text \<open>\<open>any(kw in msg_str for kw in payment_indicators)\<close>\<close>

definition detect_payment_str :: "ustring \<Rightarrow> bool" where
  "detect_payment_str msg_str = list_ex (\<lambda>kw. py_in kw msg_str) payment_indicators"


text \<open>
  The status phrases the tests expect not to count as payment: awaiting payment (two
  forms), refund requested, trade closed, awaiting the seller's shipment.
\<close>

definition negative_phrases :: "ustring list" where
  "negative_phrases =
     [[91, 25105, 24050, 25293, 19979, 65292, 24453, 20184, 27454, 93],
      [20080, 23478, 24050, 25293, 19979, 65292, 24453, 20184, 27454],
      [91, 25105, 21457, 36215, 20102, 36864, 27454, 30003, 35831, 93],
      [91, 20132, 26131, 20851, 38381, 93],
      [31561, 24453, 21334, 23478, 21457, 36135]]"


subsection \<open>Example events\<close>

text \<open>
  The ASCII digits, which are the decimal digits below U+0100.
\<close>

definition ascii_digit :: "uchar \<Rightarrow> bool" where
  "ascii_digit c \<longleftrightarrow> 48 \<le> c \<and> c \<le> 57"

text \<open>
  The message of \<open>test_extract_from_string_message_orderId\<close> and what \<open>str\<close> prints
  for it. Code point 39 is the single quote.
\<close>

definition test_message :: pyval where
  "test_message = PDict
     [(PStr (ustr ''1''), PStr (ustr ''some_string'')),
      (PStr (ustr ''4''), PDict [(PStr (ustr ''reminderUrl''),
         PStr (ustr ''https://example.com?orderId=1234567890123''))])]"

definition test_message_str :: ustring where
  "test_message_str =
     ustr ''{'' @ 39 # ustr ''1'' @ 39 # ustr '': '' @ 39 # ustr ''some_string'' @ 39 #
     ustr '', '' @ 39 # ustr ''4'' @ 39 # ustr '': {'' @ 39 # ustr ''reminderUrl'' @ 39 #
     ustr '': '' @ 39 # ustr ''https://example.com?orderId=1234567890123'' @ 39 # ustr ''}}''"

text \<open>
  An event whose card payload \<open>message['1']['6']['3']['5']\<close> is the string \<open>{\<close>,
  which is not JSON, and which carries an order id elsewhere:
  \<open>{'1': {'6': {'3': {'5': '{'}}}, 'a': 'orderId=1234567890'}\<close>.
\<close>

definition broken_json_event :: pyval where
  "broken_json_event = PDict [(PStr (ustr ''6''), PDict [(PStr (ustr ''3''),
     PDict [(PStr (ustr ''5''), PStr (ustr ''{''))])])]"

definition json_fail_message :: pyval where
  "json_fail_message = PDict
     [(PStr (ustr ''1''), broken_json_event),
      (PStr (ustr ''a''), PStr (ustr ''orderId=1234567890''))]"

definition json_fail_message_str :: ustring where
  "json_fail_message_str =
     ustr ''{'' @ 39 # ustr ''1'' @ 39 # ustr '': {'' @ 39 # ustr ''6'' @ 39 # ustr '': {'' @
     39 # ustr ''3'' @ 39 # ustr '': {'' @ 39 # ustr ''5'' @ 39 # ustr '': '' @ 39 # ustr ''{'' @
     39 # ustr ''}}}, '' @ 39 # ustr ''a'' @ 39 # ustr '': '' @ 39 # ustr ''orderId=1234567890'' @
     39 # ustr ''}''"

text \<open>
  An event that is a list, \<open>['orderId=1234567890']\<close>, and an event holding an
  integer of 4301 digits, \<open>{'1': 10 ** 4300}\<close>, which \<open>str\<close> refuses to print with
  \<open>ValueError\<close> under the default limit of 4300 digits.
\<close>

definition list_message :: pyval where
  "list_message = PList [PStr (ustr ''orderId=1234567890'')]"

definition list_message_str :: ustring where
  "list_message_str = ustr ''['' @ 39 # ustr ''orderId=1234567890'' @ 39 # ustr '']''"

definition huge_int :: int where
  "huge_int = 10 ^ 4300"

definition huge_int_message :: pyval where
  "huge_int_message = PDict [(PStr (ustr ''1''), PInt huge_int)]"

text \<open>
  The message of \<open>test_extract_from_button_target_url\<close>: the card payload is the
  JSON text of a card whose button links to the order. Code point 34 is the double
  quote.
\<close>

definition button_json :: ustring where
  "button_json =
     ustr ''{'' @ 34 #
     ustr ''dxCard'' @ 34 #
     ustr '': {'' @ 34 #
     ustr ''item'' @ 34 #
     ustr '': {'' @ 34 #
     ustr ''main'' @ 34 #
     ustr '': {'' @ 34 #
     ustr ''exContent'' @ 34 #
     ustr '': {'' @ 34 #
     ustr ''button'' @ 34 #
     ustr '': {'' @ 34 #
     ustr ''targetUrl'' @ 34 #
     ustr '': '' @ 34 #
     ustr ''https://example.com?orderId=4502061577026003543'' @ 34 #
     ustr ''}}}}}}''"

definition button_data :: pyval where
  "button_data =
     PDict [(PStr (ustr ''dxCard''), PDict [(PStr (ustr ''item''), PDict [(PStr (ustr ''main''),
       PDict [(PStr (ustr ''exContent''), PDict [(PStr (ustr ''button''),
         PDict [(PStr (ustr ''targetUrl''),
           PStr (ustr ''https://example.com?orderId=4502061577026003543''))])])])])])]"

definition button_message_1 :: pyval where
  "button_message_1 =
     PDict [(PStr (ustr ''6''), PDict [(PStr (ustr ''3''),
       PDict [(PStr (ustr ''5''), PStr button_json)])])]"

definition button_message :: pyval where
  "button_message = PDict [(PStr (ustr ''1''), button_message_1)]"

text \<open>
  An interpreter for these events: \<open>json.loads\<close> parses the button payload and
  rejects \<open>{\<close>; \<open>str\<close> prints the events as Python does, the empty list as \<open>[]\<close>,
  and refuses the huge integer. Other texts and events are not among the examples; for
  them the tables answer with the refusal.
\<close>

definition test_lib :: pylib where
  "test_lib = \<lparr>json_loads = (\<lambda>s. if s = button_json then Some button_data else None),
     py_str = (\<lambda>v. if v = test_message then Inr test_message_str
                    else if v = json_fail_message then Inr json_fail_message_str
                    else if v = list_message then Inr list_message_str
                    else if v = PList [] then Inr (ustr ''[]'')
                    else Inl ValueError),
     is_decimal = ascii_digit\<rparr>"

text \<open>
  \<open>group(1)\<close> of the leftmost match of \<open>p\<close> in \<open>s\<close>, when there is a match.
\<close>

definition first_group :: "(uchar \<Rightarrow> bool) \<Rightarrow> atom list \<Rightarrow> ustring \<Rightarrow> ustring option" where
  "first_group isd p s =
     map_option (\<lambda>cap. case cap of None \<Rightarrow> [] | Some g \<Rightarrow> g) (re_search isd p s)"

section \<open>Properties of stock consumption\<close>












lemma consume_batch_data_eq:
  "consume_batch_data now cid d =
     (case cards d cid of
        None \<Rightarrow> (None, d)
      | Some c \<Rightarrow>
          if available d \<and> card_type c = ustr ''data'' then
            (case stock_lines (data_content c) of
               [] \<Rightarrow> (None, d)
             | l # rest \<Rightarrow>
                 (Some l, d\<lparr>cards := (cards d)(cid \<mapsto>
                    c\<lparr>data_content := Some (join_nl rest), card_updated_at := Some now\<rparr>)\<rparr>))
          else (None, d))"
  by (auto simp: consume_batch_data_def stock_lines_def strip_def
      split: option.splits list.splits)


lemma stock_lines_A_B: "stock_lines (Some (ustr ''A'' @ 10 # ustr ''B'')) = [ustr ''A'', ustr ''B'']"
  by (simp add: stock_lines_def ustr_def strip_def py_isspace_def)
















text \<open>
  C10 (amended). A stock pop for card id \<open>cid\<close> leaves the rules and every other card
  as they were. It succeeds exactly when the database answers, the card exists, is of
  type \<open>data\<close> and has a non-blank line; then it returns the first trimmed non-blank
  line and stores the newline-join of the remaining trimmed non-blank lines as the
  card's \<open>data_content\<close>, and the card's \<open>updated_at\<close> becomes the time of the update.
  In every other case nothing is changed and no value is returned.
\<close>

theorem consume_batch_data_frame:
  "consume_batch_data now cid d =
     (case cards d cid of
        None \<Rightarrow> (None, d)
      | Some c \<Rightarrow>
          if available d \<and> card_type c = ustr ''data'' then
            (case stock_lines (data_content c) of
               [] \<Rightarrow> (None, d)
             | l # rest \<Rightarrow>
                 (Some l, d\<lparr>cards := (cards d)(cid \<mapsto>
                    c\<lparr>data_content := Some (join_nl rest), card_updated_at := Some now\<rparr>)\<rparr>))
          else (None, d)) \<and>
   rules (snd (consume_batch_data now cid d)) = rules d \<and>
   available (snd (consume_batch_data now cid d)) = available d \<and>
   (\<forall>k. k \<noteq> cid \<longrightarrow> cards (snd (consume_batch_data now cid d)) k = cards d k) \<and>
   (fst (consume_batch_data now cid d) = None \<longrightarrow> snd (consume_batch_data now cid d) = d)"
  by (auto simp: consume_batch_data_eq split: option.splits list.splits)

theorem consume_batch_data_frame_witness:
  "(1::int) \<noteq> 2 \<and> cards (snd (consume_batch_data 7 2 stock_db)) 1 = cards stock_db 1 \<and>
   fst (consume_batch_data 7 2 stock_db) = None \<and> snd (consume_batch_data 7 2 stock_db) = stock_db"
proof -
  have "fst (consume_batch_data 7 2 stock_db) = None"
    by (simp add: consume_batch_data_eq stock_db_def)
  then show ?thesis
    using consume_batch_data_frame [of 7 2 stock_db] by auto
qed

text \<open>
  C10 as stated says that only \<open>data_content\<close> changes. A pop at time 7 on a card
  last updated at time 0 also moves \<open>updated_at\<close> to 7.
\<close>

theorem consume_batch_data_updated_at_counterexample:
  "fst (consume_batch_data 7 1 stock_db) = Some (ustr ''A'') \<and>
   cards stock_db 1 = Some stock_card \<and>
   card_updated_at stock_card = Some 0 \<and>
   cards (snd (consume_batch_data 7 1 stock_db)) 1 =
     Some (stock_card\<lparr>data_content := Some (ustr ''B''), card_updated_at := Some 7\<rparr>) \<and>
   cards (snd (consume_batch_data 7 1 stock_db)) 1 \<noteq>
     Some (stock_card\<lparr>data_content := Some (ustr ''B'')\<rparr>)"
  by (simp add: consume_batch_data_eq stock_db_def stock_card_def blank_card_def stock_lines_A_B)


section \<open>Properties of rule matching\<close>

lemma py_in_iff: "py_in x s \<longleftrightarrow> (\<exists>pre post. s = pre @ x @ post)"
proof (induction s)
  case Nil
  then show ?case by auto
next
  case (Cons c cs)
  show ?case
  proof
    assume "py_in x (c # cs)"
    then consider "take (length x) (c # cs) = x" | "py_in x cs" by auto
    then show "\<exists>pre post. c # cs = pre @ x @ post"
    proof cases
      case 1
      then have "c # cs = [] @ x @ drop (length x) (c # cs)"
        by (metis append_Nil append_take_drop_id)
      then show ?thesis by blast
    next
      case 2
      with Cons obtain pre post where "cs = pre @ x @ post" by blast
      then have "c # cs = (c # pre) @ x @ post" by simp
      then show ?thesis by blast
    qed
  next
    assume "\<exists>pre post. c # cs = pre @ x @ post"
    then obtain pre post where e: "c # cs = pre @ x @ post" by blast
    show "py_in x (c # cs)"
    proof (cases pre)
      case Nil
      with e have "take (length x) (c # cs) = x" by simp
      then show ?thesis by simp
    next
      case (Cons a pre')
      with e have "cs = pre' @ x @ post" by simp
      with Cons.IH show ?thesis by auto
    qed
  qed
qed

lemma sql_like_percent_all: "sql_like [37] s"
  by (induction s) auto

lemma sql_like_skip: "sql_like ps s \<Longrightarrow> sql_like (37 # ps) (pre @ s)"
proof (induction pre)
  case Nil
  then show ?case by (cases s) auto
next
  case (Cons a pre)
  then show ?case by simp
qed

lemma sql_like_self: "sql_like (x @ [37]) (x @ post)"
proof (induction x)
  case Nil
  then show ?case by (simp add: sql_like_percent_all)
next
  case (Cons p ps)
  show ?case
  proof (cases "p = 37")
    case True
    from Cons have "sql_like (37 # (ps @ [37])) ([37] @ (ps @ post))"
      by (rule sql_like_skip)
    then show ?thesis unfolding True by (simp del: sql_like.simps)
  next
    case False
    with Cons show ?thesis by simp
  qed
qed

lemma sql_like_substring: "py_in x s \<Longrightarrow> sql_like (37 # x @ [37]) s"
  using sql_like_skip [OF sql_like_self] by (auto simp: py_in_iff)

lemma in_select_rows:
  "(r, c) \<in> set (select_rows cond d) \<longleftrightarrow>
     r \<in> set (rules d) \<and> cards d (card_id r) = Some c \<and> cond r c"
  by (auto simp: select_rows_def split: option.splits)

lemma set_order_by_times [simp]: "set (order_by_times e kw xs) = set xs"
  by (simp add: order_by_times_def)

lemma set_order_by_id [simp]: "set (order_by_id e kw xs) = set xs"
  by (simp add: order_by_id_def)

lemma in_spec_pass:
  "(r, c) \<in> set (spec_pass e d kw sn sv) \<longleftrightarrow>
     r \<in> set (rules d) \<and> cards d (card_id r) = Some c \<and> base_cond e kw r c \<and>
     is_multi_spec c = Some True \<and> spec_name c = sn \<and> spec_value c = sv"
  by (simp add: spec_pass_def in_select_rows)

lemma in_fallback_pass:
  "(r, c) \<in> set (fallback_pass e d kw) \<longleftrightarrow>
     r \<in> set (rules d) \<and> cards d (card_id r) = Some c \<and> base_cond e kw r c \<and>
     (is_multi_spec c = Some False \<or> is_multi_spec c = None)"
  by (simp add: fallback_pass_def in_select_rows)

lemma spec_result_cases:
  "get_delivery_rules_by_keyword_and_spec e d kw sn sv =
     (if \<not> available d then []
      else if py_truthy sn \<and> py_truthy sv \<and> spec_pass e d kw sn sv \<noteq> []
        then spec_pass e d kw sn sv
      else fallback_pass e d kw)"
  by (simp add: get_delivery_rules_by_keyword_and_spec_def execute_def)

lemma plain_result_cases:
  "get_delivery_rules_by_keyword e d kw =
     (if \<not> available d then [] else order_by_id e kw (select_rows (base_cond e kw) d))"
  by (simp add: get_delivery_rules_by_keyword_def execute_def)


lemma sort_key_nth_mono:
  fixes f :: "'a \<Rightarrow> 'k::linorder"
  assumes "i < j" "j < length xs"
  shows "f (sort_key f xs ! i) \<le> f (sort_key f xs ! j)"
proof -
  have "sorted (map f (sort_key f xs))" by (rule sorted_sort_key)
  moreover have "i < j" "j < length (map f (sort_key f xs))" using assms by simp_all
  ultimately have "map f (sort_key f xs) ! i \<le> map f (sort_key f xs) ! j"
    by (simp add: sorted_iff_nth_mono)
  then show ?thesis using assms by simp
qed

lemma order_by_id_nth:
  assumes "i < j" "j < length xs"
  shows "rank_score e kw (fst (order_by_id e kw xs ! j)) \<le> rank_score e kw (fst (order_by_id e kw xs ! i)) \<and>
    (rank_score e kw (fst (order_by_id e kw xs ! i)) = rank_score e kw (fst (order_by_id e kw xs ! j)) \<longrightarrow>
       rule_id (fst (order_by_id e kw xs ! i)) \<le> rule_id (fst (order_by_id e kw xs ! j)))"
  using sort_key_nth_mono [OF assms, of "\<lambda>(r, c). (- int (rank_score e kw r), rule_id r)"]
  by (auto simp: order_by_id_def case_prod_beta)

lemma order_by_times_nth:
  assumes "i < j" "j < length xs"
  shows "rank_score e kw (fst (order_by_times e kw xs ! j)) \<le> rank_score e kw (fst (order_by_times e kw xs ! i)) \<and>
    (rank_score e kw (fst (order_by_times e kw xs ! i)) = rank_score e kw (fst (order_by_times e kw xs ! j)) \<longrightarrow>
       dt_key e (fst (order_by_times e kw xs ! i)) \<le> dt_key e (fst (order_by_times e kw xs ! j)))"
  using sort_key_nth_mono [OF assms, of "\<lambda>(r, c). (- int (rank_score e kw r), dt_key e r)"]
  by (auto simp: order_by_times_def case_prod_beta)

lemma length_order_by_id [simp]: "length (order_by_id e kw xs) = length xs"
  by (simp add: order_by_id_def)

lemma length_order_by_times [simp]: "length (order_by_times e kw xs) = length xs"
  by (simp add: order_by_times_def)

lemma plain_nth:
  assumes "i < j" "j < length (get_delivery_rules_by_keyword e d kw)"
  shows "rank_score e kw (fst (get_delivery_rules_by_keyword e d kw ! j))
           \<le> rank_score e kw (fst (get_delivery_rules_by_keyword e d kw ! i)) \<and>
    (rank_score e kw (fst (get_delivery_rules_by_keyword e d kw ! i)) =
       rank_score e kw (fst (get_delivery_rules_by_keyword e d kw ! j)) \<longrightarrow>
       rule_id (fst (get_delivery_rules_by_keyword e d kw ! i))
         \<le> rule_id (fst (get_delivery_rules_by_keyword e d kw ! j)))"
proof (cases "available d")
  case True
  with assms show ?thesis
    using order_by_id_nth [of i j "select_rows (base_cond e kw) d" e kw]
    by (simp add: plain_result_cases)
next
  case False
  with assms show ?thesis by (simp add: plain_result_cases)
qed

lemma spec_nth:
  assumes "i < j" "j < length (get_delivery_rules_by_keyword_and_spec e d kw sn sv)"
  shows "rank_score e kw (fst (get_delivery_rules_by_keyword_and_spec e d kw sn sv ! j))
           \<le> rank_score e kw (fst (get_delivery_rules_by_keyword_and_spec e d kw sn sv ! i)) \<and>
    (rank_score e kw (fst (get_delivery_rules_by_keyword_and_spec e d kw sn sv ! i)) =
       rank_score e kw (fst (get_delivery_rules_by_keyword_and_spec e d kw sn sv ! j)) \<longrightarrow>
       dt_key e (fst (get_delivery_rules_by_keyword_and_spec e d kw sn sv ! i))
         \<le> dt_key e (fst (get_delivery_rules_by_keyword_and_spec e d kw sn sv ! j)))"
proof -
  let ?res = "get_delivery_rules_by_keyword_and_spec e d kw sn sv"
  consider "?res = []" | "?res = spec_pass e d kw sn sv" | "?res = fallback_pass e d kw"
    by (cases "available d"; cases "py_truthy sn \<and> py_truthy sv \<and> spec_pass e d kw sn sv \<noteq> []")
       (simp_all add: spec_result_cases)
  then show ?thesis
  proof cases
    case 1
    with assms show ?thesis by simp
  next
    case 2
    with assms show ?thesis
      using order_by_times_nth [of i j _ e kw]
      by (simp add: spec_pass_def)
  next
    case 3
    with assms show ?thesis
      using order_by_times_nth [of i j _ e kw]
      by (simp add: fallback_pass_def)
  qed
qed

lemma dt_key_le:
  "delivery_times r = Some a \<Longrightarrow> delivery_times r' = Some b \<Longrightarrow>
     dt_key e r \<le> dt_key e r' \<longleftrightarrow> a \<le> b"
  by (auto simp: dt_key_def)

lemma sort_key_inj_perm:
  fixes f :: "'a \<Rightarrow> 'k::linorder"
  assumes "mset xs = mset ys" "inj_on f (set xs)"
  shows "sort_key f xs = sort_key f ys"
proof -
  let ?A = "map f (sort_key f xs)" and ?B = "map f (sort_key f ys)"
  have s: "set ys = set xs" using assms(1) by (metis set_mset_mset)
  have m: "mset ?A = mset ?B" using assms(1) by simp
  have sa: "sorted ?A" and sb: "sorted ?B" by (rule sorted_sort_key)+
  have "sort ?B = ?A" using m sa by (rule properties_for_sort)
  moreover have "sort ?B = ?B" using sb by (rule sorted_sort_id)
  ultimately have eq: "?A = ?B" by simp
  have "inj_on f (set (sort_key f xs) \<union> set (sort_key f ys))"
    using assms(2) s by simp
  then show ?thesis using eq by (simp add: inj_on_map_eq_map)
qed

lemma mset_concat_map:
  "mset (concat (map g xs)) = (\<Sum>x\<in>#mset xs. mset (g x))"
  by (induction xs) auto

lemma mset_select_rows:
  assumes "mset (rules d') = mset (rules d)" "cards d' = cards d"
  shows "mset (select_rows cond d') = mset (select_rows cond d)"
  unfolding select_rows_def mset_concat_map assms ..

lemma select_rows_key_inj:
  assumes "distinct (map rule_id (rules d))"
  shows "inj_on (\<lambda>(r, c). (- int (rank_score e kw r), rule_id r)) (set (select_rows cond d))"
proof (rule inj_onI)
  fix x y
  assume x: "x \<in> set (select_rows cond d)" and y: "y \<in> set (select_rows cond d)"
    and k: "(case x of (r, c) \<Rightarrow> (- int (rank_score e kw r), rule_id r)) =
            (case y of (r, c) \<Rightarrow> (- int (rank_score e kw r), rule_id r))"
  obtain r c r' c' where xy: "x = (r, c)" "y = (r', c')" by (cases x, cases y) auto
  from x y xy have m: "r \<in> set (rules d)" "r' \<in> set (rules d)"
    "cards d (card_id r) = Some c" "cards d (card_id r') = Some c'"
    by (simp_all add: in_select_rows)
  from k xy have "rule_id r = rule_id r'" by simp
  with m(1,2) assms have "r = r'" by (meson distinct_map inj_onD)
  with m(3,4) xy show "x = y" by simp
qed

lemma plain_deterministic:
  assumes "distinct (map rule_id (rules d))" "mset (rules d') = mset (rules d)"
    "cards d' = cards d" "available d' = available d"
  shows "get_delivery_rules_by_keyword e d' kw = get_delivery_rules_by_keyword e d kw"
proof -
  have "mset (select_rows (base_cond e kw) d') = mset (select_rows (base_cond e kw) d)"
    using assms(2,3) by (rule mset_select_rows)
  then have "mset (select_rows (base_cond e kw) d) = mset (select_rows (base_cond e kw) d')"
    by (rule sym)
  then have "order_by_id e kw (select_rows (base_cond e kw) d) =
        order_by_id e kw (select_rows (base_cond e kw) d')"
    unfolding order_by_id_def
    using select_rows_key_inj [OF assms(1)] by (rule sort_key_inj_perm)
  with assms(4) show ?thesis by (simp add: plain_result_cases)
qed

lemmas ex_defs = blank_rule_def blank_card_def phone_db_def long_keyword_db_def red_card_def
  times_db_def blue_card_def blue_db_def
lemmas q_defs = plain_result_cases spec_result_cases spec_pass_def fallback_pass_def
  select_rows_def base_cond_def rank_score_def like_contains_def std_engine_def
  order_by_id_def order_by_times_def dt_key_def py_truthy_def ustr_def



text \<open>
  C2 (amended). Every pair the spec-aware matcher returns has a card that either is
  multi-spec with \<open>(spec_name, spec_value)\<close> equal to the supplied spec, both
  non-empty (first pass), or, only when the spec is not supplied or the first pass
  selects no row, is not multi-spec (fallback pass). A returned multi-spec card never
  carries another spec than the supplied one. When neither pass selects a row the result
  is the empty list.
\<close>

theorem spec_matcher_rows:
  "((r, c) \<in> set (get_delivery_rules_by_keyword_and_spec e d kw sn sv) \<longrightarrow>
      (py_truthy sn \<and> py_truthy sv \<and>
       is_multi_spec c = Some True \<and> spec_name c = sn \<and> spec_value c = sv) \<or>
      ((\<not> (py_truthy sn \<and> py_truthy sv) \<or> spec_pass e d kw sn sv = []) \<and>
       (is_multi_spec c = Some False \<or> is_multi_spec c = None))) \<and>
   ((r, c) \<in> set (get_delivery_rules_by_keyword_and_spec e d kw sn sv) \<and>
      is_multi_spec c = Some True \<longrightarrow> spec_name c = sn \<and> spec_value c = sv) \<and>
   ((\<not> (py_truthy sn \<and> py_truthy sv) \<or> spec_pass e d kw sn sv = []) \<and>
      fallback_pass e d kw = [] \<longrightarrow>
      get_delivery_rules_by_keyword_and_spec e d kw sn sv = [])"
  by (auto simp: spec_result_cases in_spec_pass in_fallback_pass split: if_splits)

text \<open>
  C9. A pair whose card has \<open>is_multi_spec\<close> true is returned only when
  \<open>spec_name\<close> and \<open>spec_value\<close> are both supplied, non-empty, and equal to the
  card's. When no spec is supplied or the exact-spec pass is empty, every returned card
  has \<open>is_multi_spec\<close> false or NULL.
\<close>

theorem multi_spec_needs_exact_spec:
  "((r, c) \<in> set (get_delivery_rules_by_keyword_and_spec e d kw sn sv) \<and>
      is_multi_spec c = Some True \<longrightarrow>
      (\<exists>n v. sn = Some n \<and> sv = Some v \<and> n \<noteq> [] \<and> v \<noteq> [] \<and>
             spec_name c = Some n \<and> spec_value c = Some v)) \<and>
   (\<not> py_truthy sn \<or> \<not> py_truthy sv \<or> spec_pass e d kw sn sv = [] \<longrightarrow>
      (\<forall>(r', c') \<in> set (get_delivery_rules_by_keyword_and_spec e d kw sn sv).
         is_multi_spec c' = Some False \<or> is_multi_spec c' = None))"
  by (auto simp: spec_result_cases in_spec_pass in_fallback_pass py_truthy_def
      split: if_splits option.splits)

text \<open>
  C2 as stated says that no returned card carries a spec value other than the supplied
  one. The fallback pass looks at \<open>is_multi_spec\<close> only: a card stored with
  \<open>is_multi_spec = false\<close> and the spec \<open>(color, blue)\<close>, which \<open>create_card\<close> and
  \<open>update_card\<close> accept, is returned to a request for \<open>(color, red)\<close>.
\<close>

theorem spec_matcher_rows_counterexample:
  "get_delivery_rules_by_keyword_and_spec std_engine blue_db (ustr ''abc'')
      (Some (ustr ''color'')) (Some (ustr ''red'')) = [(blank_rule, blue_card)] \<and>
   spec_value blue_card = Some (ustr ''blue'') \<and>
   spec_value blue_card \<noteq> Some (ustr ''red'')"
  by (simp add: ex_defs q_defs)

theorem spec_matcher_rows_witness:
  "(blank_rule, blue_card) \<in> set (get_delivery_rules_by_keyword_and_spec std_engine blue_db
      (ustr ''abc'') (Some (ustr ''color'')) (Some (ustr ''red''))) \<and>
   spec_pass std_engine blue_db (ustr ''abc'') (Some (ustr ''color'')) (Some (ustr ''red'')) = [] \<and>
   is_multi_spec blue_card = Some False \<and>
   (blank_rule\<lparr>rule_id := 4, card_id := 2, delivery_times := Some 0\<rparr>, red_card)
      \<in> set (get_delivery_rules_by_keyword_and_spec std_engine times_db
      (ustr ''abc'') (Some (ustr ''color'')) (Some (ustr ''red''))) \<and>
   is_multi_spec red_card = Some True \<and>
   spec_name red_card = Some (ustr ''color'') \<and> spec_value red_card = Some (ustr ''red'') \<and>
   fallback_pass std_engine blue_db (ustr ''xyz'') = [] \<and>
   get_delivery_rules_by_keyword_and_spec std_engine blue_db (ustr ''xyz'')
      (Some (ustr ''color'')) (Some (ustr ''red'')) = []"
proof -
  have a: "(blank_rule, blue_card) \<in> set (get_delivery_rules_by_keyword_and_spec std_engine blue_db
      (ustr ''abc'') (Some (ustr ''color'')) (Some (ustr ''red'')))"
    by (simp add: ex_defs q_defs)
  have b: "(blank_rule\<lparr>rule_id := 4, card_id := 2, delivery_times := Some 0\<rparr>, red_card)
      \<in> set (get_delivery_rules_by_keyword_and_spec std_engine times_db
      (ustr ''abc'') (Some (ustr ''color'')) (Some (ustr ''red'')))"
    by (simp add: ex_defs q_defs)
  have c: "is_multi_spec red_card = Some True" "is_multi_spec blue_card = Some False"
    by (simp_all add: ex_defs)
  have d: "spec_pass std_engine blue_db (ustr ''xyz'') (Some (ustr ''color'')) (Some (ustr ''red'')) = []"
    "fallback_pass std_engine blue_db (ustr ''xyz'') = []"
    by (simp_all add: ex_defs q_defs)
  show ?thesis
    using a b c d
      spec_matcher_rows [of blank_rule blue_card std_engine blue_db "ustr ''abc''"
        "Some (ustr ''color'')" "Some (ustr ''red'')"]
      spec_matcher_rows [of "blank_rule\<lparr>rule_id := 4, card_id := 2, delivery_times := Some 0\<rparr>"
        red_card std_engine times_db "ustr ''abc''" "Some (ustr ''color'')" "Some (ustr ''red'')"]
      spec_matcher_rows [of blank_rule blue_card std_engine blue_db "ustr ''xyz''"
        "Some (ustr ''color'')" "Some (ustr ''red'')"]
    by auto
qed

theorem multi_spec_needs_exact_spec_witness:
  "(blank_rule\<lparr>rule_id := 4, card_id := 2, delivery_times := Some 0\<rparr>, red_card)
      \<in> set (get_delivery_rules_by_keyword_and_spec std_engine times_db
      (ustr ''abc'') (Some (ustr ''color'')) (Some (ustr ''red''))) \<and>
   is_multi_spec red_card = Some True \<and>
   spec_name red_card = Some (ustr ''color'') \<and> spec_value red_card = Some (ustr ''red'') \<and>
   \<not> py_truthy None \<and>
   (blank_rule\<lparr>rule_id := 2, delivery_times := Some 0\<rparr>, blank_card)
      \<in> set (get_delivery_rules_by_keyword_and_spec std_engine times_db (ustr ''abc'') None None) \<and>
   is_multi_spec blank_card = Some False"
proof -
  have b: "(blank_rule\<lparr>rule_id := 4, card_id := 2, delivery_times := Some 0\<rparr>, red_card)
      \<in> set (get_delivery_rules_by_keyword_and_spec std_engine times_db
      (ustr ''abc'') (Some (ustr ''color'')) (Some (ustr ''red'')))"
    by (simp add: ex_defs q_defs)
  have c: "(blank_rule\<lparr>rule_id := 2, delivery_times := Some 0\<rparr>, blank_card)
      \<in> set (get_delivery_rules_by_keyword_and_spec std_engine times_db (ustr ''abc'') None None)"
    by (simp add: ex_defs q_defs)
  have d: "is_multi_spec red_card = Some True" "\<not> py_truthy None"
    by (simp_all add: ex_defs py_truthy_def)
  show ?thesis
    using b c d
      multi_spec_needs_exact_spec [of "blank_rule\<lparr>rule_id := 4, card_id := 2, delivery_times := Some 0\<rparr>"
        red_card std_engine times_db "ustr ''abc''" "Some (ustr ''color'')" "Some (ustr ''red'')"]
      multi_spec_needs_exact_spec [of blank_rule blank_card std_engine times_db "ustr ''abc''" None None]
    by (auto simp: ex_defs)
qed

lemma rank_score_substring:
  "py_in (keyword r) kw \<Longrightarrow> rank_score std_engine kw r = length (keyword r)"
  by (simp add: rank_score_def like_contains_def std_engine_def sql_like_substring)

text \<open>
  C4 (amended). Both queries return their rows in descending order of score. A rule
  whose keyword the engine's \<open>LIKE\<close> finds inside the text scores the length of its
  keyword; with the standard \<open>LIKE\<close> this covers every keyword that is a substring of
  the text. A rule matched only by the reverse test scores half that length, rounded
  down. A rule of the first kind ranks at or above one of the second kind exactly when
  its keyword is at least half as long (rounded down) as the other's. With the keywords
  \<open>U+624B U+673A U+58F3\<close> and \<open>U+624B U+673A\<close> and the text
  \<open>U+6709 U+624B U+673A U+58F3 U+5417\<close> the longer keyword comes first.
\<close>

theorem rank_by_score:
  "(i < j \<and> j < length (get_delivery_rules_by_keyword e d kw) \<longrightarrow>
      rank_score e kw (fst (get_delivery_rules_by_keyword e d kw ! j))
        \<le> rank_score e kw (fst (get_delivery_rules_by_keyword e d kw ! i))) \<and>
   (i < j \<and> j < length (get_delivery_rules_by_keyword_and_spec e d kw sn sv) \<longrightarrow>
      rank_score e kw (fst (get_delivery_rules_by_keyword_and_spec e d kw sn sv ! j))
        \<le> rank_score e kw (fst (get_delivery_rules_by_keyword_and_spec e d kw sn sv ! i))) \<and>
   (py_in (keyword r) kw \<longrightarrow> rank_score std_engine kw r = length (keyword r)) \<and>
   (like_contains e kw (keyword r) \<longrightarrow> rank_score e kw r = length (keyword r)) \<and>
   (\<not> like_contains e kw (keyword r) \<longrightarrow> rank_score e kw r = length (keyword r) div 2) \<and>
   (like_contains e kw (keyword r) \<and> \<not> like_contains e kw (keyword r') \<longrightarrow>
      (rank_score e kw r' \<le> rank_score e kw r \<longleftrightarrow>
         length (keyword r') div 2 \<le> length (keyword r))) \<and>
   map (keyword \<circ> fst) (get_delivery_rules_by_keyword std_engine phone_db
      [26377, 25163, 26426, 22771, 21527]) = [[25163, 26426, 22771], [25163, 26426]] \<and>
   map (keyword \<circ> fst) (get_delivery_rules_by_keyword_and_spec std_engine phone_db
      [26377, 25163, 26426, 22771, 21527] None None) = [[25163, 26426, 22771], [25163, 26426]]"
proof -
  have 1: "map (keyword \<circ> fst) (get_delivery_rules_by_keyword std_engine phone_db
      [26377, 25163, 26426, 22771, 21527]) = [[25163, 26426, 22771], [25163, 26426]]"
    by (simp add: ex_defs q_defs)
  have 2: "map (keyword \<circ> fst) (get_delivery_rules_by_keyword_and_spec std_engine phone_db
      [26377, 25163, 26426, 22771, 21527] None None) = [[25163, 26426, 22771], [25163, 26426]]"
    by (simp add: ex_defs q_defs)
  have 3: "like_contains e kw (keyword r) \<and> \<not> like_contains e kw (keyword r') \<longrightarrow>
      (rank_score e kw r' \<le> rank_score e kw r \<longleftrightarrow>
         length (keyword r') div 2 \<le> length (keyword r))"
    by (simp add: rank_score_def)
  show ?thesis
    using plain_nth [of i j e d kw] spec_nth [of i j e d kw sn sv] rank_score_substring [of r kw] 1 2 3
    by (simp add: rank_score_def)
qed

text \<open>
  C4 as stated says that an exact-substring match ranks at or above every match by
  reverse containment only. For the text \<open>ab\<close>, the keyword \<open>a\<close> is a substring of
  the text and scores 1, the keyword \<open>abcdefgh\<close> only contains the text and scores
  8 div 2 = 4, and comes first.
\<close>

theorem rank_by_score_counterexample:
  "py_in (ustr ''a'') (ustr ''ab'') \<and>
   \<not> py_in (ustr ''abcdefgh'') (ustr ''ab'') \<and> py_in (ustr ''ab'') (ustr ''abcdefgh'') \<and>
   rank_score std_engine (ustr ''ab'') (blank_rule\<lparr>rule_id := 1, keyword := ustr ''a''\<rparr>) = 1 \<and>
   rank_score std_engine (ustr ''ab'') (blank_rule\<lparr>rule_id := 2, keyword := ustr ''abcdefgh''\<rparr>) = 4 \<and>
   map (keyword \<circ> fst) (get_delivery_rules_by_keyword std_engine long_keyword_db (ustr ''ab''))
     = [ustr ''abcdefgh'', ustr ''a''] \<and>
   map (keyword \<circ> fst) (get_delivery_rules_by_keyword_and_spec std_engine long_keyword_db (ustr ''ab'') None None)
     = [ustr ''abcdefgh'', ustr ''a'']"
  by (simp add: ex_defs q_defs)


theorem rank_by_score_witness:
  "(0::nat) < 1 \<and> 1 < length (get_delivery_rules_by_keyword std_engine phone_db [26377, 25163, 26426, 22771, 21527]) \<and>
   rank_score std_engine [26377, 25163, 26426, 22771, 21527]
     (fst (get_delivery_rules_by_keyword std_engine phone_db [26377, 25163, 26426, 22771, 21527] ! 1))
   \<le> rank_score std_engine [26377, 25163, 26426, 22771, 21527]
     (fst (get_delivery_rules_by_keyword std_engine phone_db [26377, 25163, 26426, 22771, 21527] ! 0)) \<and>
   1 < length (get_delivery_rules_by_keyword_and_spec std_engine phone_db [26377, 25163, 26426, 22771, 21527] None None) \<and>
   rank_score std_engine [26377, 25163, 26426, 22771, 21527]
     (fst (get_delivery_rules_by_keyword_and_spec std_engine phone_db [26377, 25163, 26426, 22771, 21527] None None ! 1))
   \<le> rank_score std_engine [26377, 25163, 26426, 22771, 21527]
     (fst (get_delivery_rules_by_keyword_and_spec std_engine phone_db [26377, 25163, 26426, 22771, 21527] None None ! 0)) \<and>
   py_in [25163, 26426, 22771] [26377, 25163, 26426, 22771, 21527] \<and>
   like_contains std_engine [26377, 25163, 26426, 22771, 21527] [25163, 26426, 22771] \<and>
   rank_score std_engine [26377, 25163, 26426, 22771, 21527]
     (blank_rule\<lparr>keyword := [25163, 26426, 22771]\<rparr>) = 3 \<and>
   \<not> like_contains std_engine [26377, 25163, 26426, 22771, 21527] [26377, 25163, 26426, 22771, 21527, 21834] \<and>
   rank_score std_engine [26377, 25163, 26426, 22771, 21527]
     (blank_rule\<lparr>keyword := [26377, 25163, 26426, 22771, 21527, 21834]\<rparr>) = 3 \<and>
   rank_score std_engine [26377, 25163, 26426, 22771, 21527]
     (blank_rule\<lparr>keyword := [26377, 25163, 26426, 22771, 21527, 21834]\<rparr>)
   \<le> rank_score std_engine [26377, 25163, 26426, 22771, 21527]
     (blank_rule\<lparr>keyword := [25163, 26426, 22771]\<rparr>)"
proof -
  have l: "1 < length (get_delivery_rules_by_keyword std_engine phone_db [26377, 25163, 26426, 22771, 21527])"
    "1 < length (get_delivery_rules_by_keyword_and_spec std_engine phone_db [26377, 25163, 26426, 22771, 21527] None None)"
    by (simp_all add: ex_defs q_defs)
  have c: "py_in [25163, 26426, 22771] [26377, 25163, 26426, 22771, 21527]"
    "like_contains std_engine [26377, 25163, 26426, 22771, 21527] [25163, 26426, 22771]"
    "\<not> like_contains std_engine [26377, 25163, 26426, 22771, 21527] [26377, 25163, 26426, 22771, 21527, 21834]"
    by (simp_all add: like_contains_def std_engine_def)
  show ?thesis
    using l c
      rank_by_score [of 0 1 std_engine phone_db "[26377, 25163, 26426, 22771, 21527]" None None
        "blank_rule\<lparr>keyword := [25163, 26426, 22771]\<rparr>"
        "blank_rule\<lparr>keyword := [26377, 25163, 26426, 22771, 21527, 21834]\<rparr>"]
      rank_by_score [of 0 1 std_engine phone_db "[26377, 25163, 26426, 22771, 21527]" None None
        "blank_rule\<lparr>keyword := [26377, 25163, 26426, 22771, 21527, 21834]\<rparr>"
        "blank_rule\<lparr>keyword := [26377, 25163, 26426, 22771, 21527, 21834]\<rparr>"]
    by simp
qed

text \<open>
  C5 (amended). Among rows of equal score the plain keyword query orders by rule id
  ascending, and with unique rule ids its result does not depend on the order in which
  the rules are stored. Both passes of the spec-aware query order rows of equal score
  by \<open>delivery_times\<close> ascending, NULL where the engine puts it, and do not look at
  the rule id.
\<close>

theorem tie_break_order:
  "(i < j \<and> j < length (get_delivery_rules_by_keyword e d kw) \<and>
    rank_score e kw (fst (get_delivery_rules_by_keyword e d kw ! i)) =
      rank_score e kw (fst (get_delivery_rules_by_keyword e d kw ! j)) \<longrightarrow>
      rule_id (fst (get_delivery_rules_by_keyword e d kw ! i))
        \<le> rule_id (fst (get_delivery_rules_by_keyword e d kw ! j))) \<and>
   (distinct (map rule_id (rules d)) \<and> mset (rules d') = mset (rules d) \<and>
    cards d' = cards d \<and> available d' = available d \<longrightarrow>
      get_delivery_rules_by_keyword e d' kw = get_delivery_rules_by_keyword e d kw) \<and>
   (i < j \<and> j < length (get_delivery_rules_by_keyword_and_spec e d kw sn sv) \<and>
    rank_score e kw (fst (get_delivery_rules_by_keyword_and_spec e d kw sn sv ! i)) =
      rank_score e kw (fst (get_delivery_rules_by_keyword_and_spec e d kw sn sv ! j)) \<longrightarrow>
      dt_key e (fst (get_delivery_rules_by_keyword_and_spec e d kw sn sv ! i))
        \<le> dt_key e (fst (get_delivery_rules_by_keyword_and_spec e d kw sn sv ! j)) \<and>
      (\<forall>a b. delivery_times (fst (get_delivery_rules_by_keyword_and_spec e d kw sn sv ! i)) = Some a \<and>
             delivery_times (fst (get_delivery_rules_by_keyword_and_spec e d kw sn sv ! j)) = Some b
         \<longrightarrow> a \<le> b))"
  using plain_nth [of i j e d kw] spec_nth [of i j e d kw sn sv]
    plain_deterministic [of d d' e kw] dt_key_le
  by blast

text \<open>
  C5 as stated says that the spec-aware query breaks ties by rule id. Rules 1 and 2
  have the same keyword and score; rule 1 has been delivered 5 times and rule 2 never,
  and the fallback pass returns rule 2 first. The first pass does the same with rules
  3 and 4, while the plain query returns 1, 2, 3, 4.
\<close>

theorem tie_break_order_counterexample:
  "rank_score std_engine (ustr ''abc'') (blank_rule\<lparr>rule_id := 1, delivery_times := Some 5\<rparr>) =
   rank_score std_engine (ustr ''abc'') (blank_rule\<lparr>rule_id := 2, delivery_times := Some 0\<rparr>) \<and>
   get_delivery_rules_by_keyword_and_spec std_engine times_db (ustr ''abc'') None None =
     [(blank_rule\<lparr>rule_id := 2, delivery_times := Some 0\<rparr>, blank_card),
      (blank_rule\<lparr>rule_id := 1, delivery_times := Some 5\<rparr>, blank_card)] \<and>
   map (rule_id \<circ> fst) (get_delivery_rules_by_keyword_and_spec std_engine times_db (ustr ''abc'')
     (Some (ustr ''color'')) (Some (ustr ''red''))) = [4, 3] \<and>
   map (rule_id \<circ> fst) (get_delivery_rules_by_keyword std_engine times_db (ustr ''abc'')) = [1, 2, 3, 4]"
  by (simp add: ex_defs q_defs)

theorem tie_break_order_witness:
  "(0::nat) < 1 \<and> 1 < length (get_delivery_rules_by_keyword std_engine times_db (ustr ''abc'')) \<and>
   rank_score std_engine (ustr ''abc'') (fst (get_delivery_rules_by_keyword std_engine times_db (ustr ''abc'') ! 0)) =
     rank_score std_engine (ustr ''abc'') (fst (get_delivery_rules_by_keyword std_engine times_db (ustr ''abc'') ! 1)) \<and>
   rule_id (fst (get_delivery_rules_by_keyword std_engine times_db (ustr ''abc'') ! 0))
     \<le> rule_id (fst (get_delivery_rules_by_keyword std_engine times_db (ustr ''abc'') ! 1)) \<and>
   distinct (map rule_id (rules times_db)) \<and>
   mset (rules (times_db\<lparr>rules := rev (rules times_db)\<rparr>)) = mset (rules times_db) \<and>
   get_delivery_rules_by_keyword std_engine (times_db\<lparr>rules := rev (rules times_db)\<rparr>) (ustr ''abc'')
     = get_delivery_rules_by_keyword std_engine times_db (ustr ''abc'') \<and>
   1 < length (get_delivery_rules_by_keyword_and_spec std_engine times_db (ustr ''abc'') None None) \<and>
   delivery_times (fst (get_delivery_rules_by_keyword_and_spec std_engine times_db (ustr ''abc'') None None ! 0)) = Some 0 \<and>
   delivery_times (fst (get_delivery_rules_by_keyword_and_spec std_engine times_db (ustr ''abc'') None None ! 1)) = Some 5 \<and>
   dt_key std_engine (fst (get_delivery_rules_by_keyword_and_spec std_engine times_db (ustr ''abc'') None None ! 0))
     \<le> dt_key std_engine (fst (get_delivery_rules_by_keyword_and_spec std_engine times_db (ustr ''abc'') None None ! 1)) \<and>
   (0::int) \<le> 5"
proof -
  have p: "get_delivery_rules_by_keyword std_engine times_db (ustr ''abc'') =
     [(blank_rule\<lparr>rule_id := 1, delivery_times := Some 5\<rparr>, blank_card),
      (blank_rule\<lparr>rule_id := 2, delivery_times := Some 0\<rparr>, blank_card),
      (blank_rule\<lparr>rule_id := 3, card_id := 2, delivery_times := Some 5\<rparr>, red_card),
      (blank_rule\<lparr>rule_id := 4, card_id := 2, delivery_times := Some 0\<rparr>, red_card)]"
    by (simp add: ex_defs q_defs)
  have q: "get_delivery_rules_by_keyword_and_spec std_engine times_db (ustr ''abc'') None None =
     [(blank_rule\<lparr>rule_id := 2, delivery_times := Some 0\<rparr>, blank_card),
      (blank_rule\<lparr>rule_id := 1, delivery_times := Some 5\<rparr>, blank_card)]"
    by (simp add: ex_defs q_defs)
  have s: "rank_score std_engine (ustr ''abc'') (blank_rule\<lparr>rule_id := 1, delivery_times := Some 5\<rparr>) = 3"
    "rank_score std_engine (ustr ''abc'') (blank_rule\<lparr>rule_id := 2, delivery_times := Some 0\<rparr>) = 3"
    by (simp_all add: ex_defs q_defs)
  have dd: "distinct (map rule_id (rules times_db))"
    by (simp add: ex_defs)
  show ?thesis
    using tie_break_order [of 0 1 std_engine times_db "ustr ''abc''"
        "times_db\<lparr>rules := rev (rules times_db)\<rparr>" None None] dd
    by (simp add: p q s)
qed


section \<open>Properties of the classifier\<close>

lemmas phrase_defs = auto_delivery_keywords_def payment_indicators_def negative_phrases_def
  is_auto_delivery_trigger_def detect_payment_str_def ustr_def


lemma py_in_trans: "py_in y x \<Longrightarrow> py_in x s \<Longrightarrow> py_in y s"
proof -
  assume "py_in y x" "py_in x s"
  then obtain a b c d where "x = a @ y @ b" "s = c @ x @ d"
    by (auto simp: py_in_iff)
  then have "s = (c @ a) @ y @ (b @ d)" by simp
  then show ?thesis unfolding py_in_iff by blast
qed

lemma py_in_single: "py_in [c] s \<longleftrightarrow> c \<in> set s"
  by (induction s) auto

lemma py_in_pair_append:
  "py_in [c1, c2] (a @ b) \<Longrightarrow>
     py_in [c1, c2] a \<or> py_in [c1, c2] b \<or> (a \<noteq> [] \<and> last a = c1)"
proof (induction a)
  case Nil
  then show ?case by simp
next
  case (Cons x a)
  show ?case
  proof (cases a)
    case Nil
    with Cons.prems show ?thesis by (cases b) auto
  next
    case (Cons y a')
    with Cons.prems Cons.IH show ?thesis by auto
  qed
qed

lemma py_in_pair_concat:
  "py_in [c1, c2] (concat ns) \<Longrightarrow>
     (\<exists>n\<in>set ns. py_in [c1, c2] n) \<or> (\<exists>n\<in>set ns. n \<noteq> [] \<and> last n = c1)"
proof (induction ns)
  case Nil
  then show ?case by simp
next
  case (Cons n ns)
  from Cons.prems have "py_in [c1, c2] (n @ concat ns)" by simp
  then consider "py_in [c1, c2] n" | "py_in [c1, c2] (concat ns)" | "n \<noteq> [] \<and> last n = c1"
    using py_in_pair_append by blast
  then show ?case
  proof cases
    case 2
    with Cons.IH show ?thesis by auto
  qed auto
qed

lemma negative_no_paid_pair:
  assumes "set ns \<subseteq> set negative_phrases"
  shows "\<not> py_in [24050, 20184] (concat ns)"
proof
  assume "py_in [24050, 20184] (concat ns)"
  then consider n where "n \<in> set ns" "py_in [24050, 20184] n"
    | n where "n \<in> set ns" "n \<noteq> []" "last n = 24050"
    using py_in_pair_concat by blast
  then show False
  proof cases
    case 1
    with assms have "n \<in> set negative_phrases" by blast
    with 1(2) show False by (auto simp: negative_phrases_def)
  next
    case 2
    with assms have "n \<in> set negative_phrases" by blast
    with 2(3) show False by (auto simp: negative_phrases_def)
  qed
qed

lemma negative_no_await_pair:
  assumes "set ns \<subseteq> set negative_phrases"
  shows "\<not> py_in [24453, 20320] (concat ns)"
proof
  assume "py_in [24453, 20320] (concat ns)"
  then consider n where "n \<in> set ns" "py_in [24453, 20320] n"
    | n where "n \<in> set ns" "n \<noteq> []" "last n = 24453"
    using py_in_pair_concat by blast
  then show False
  proof cases
    case 1
    with assms have "n \<in> set negative_phrases" by blast
    with 1(2) show False by (auto simp: negative_phrases_def)
  next
    case 2
    with assms have "n \<in> set negative_phrases" by blast
    with 2(3) show False by (auto simp: negative_phrases_def)
  qed
qed

lemma negative_no_char:
  assumes "set ns \<subseteq> set negative_phrases" "c = 35760 \<or> c = 84"
  shows "\<not> py_in [c] (concat ns)"
proof
  assume "py_in [c] (concat ns)"
  then obtain n where "n \<in> set ns" "c \<in> set n"
    by (auto simp: py_in_single)
  with assms(1) have "n \<in> set negative_phrases" "c \<in> set n" by blast+
  with assms(2) show False by (auto simp: negative_phrases_def)
qed

lemma negative_only_no_positive:
  assumes "set ns \<subseteq> set negative_phrases"
    and "p \<in> set (auto_delivery_keywords @ payment_indicators)"
  shows "\<not> py_in p (concat ns)"
proof
  assume in_msg: "py_in p (concat ns)"
  have "py_in [24050, 20184] p \<or> py_in [24453, 20320] p \<or> py_in [35760] p \<or> py_in [84] p"
    using assms(2)
    by (auto simp: auto_delivery_keywords_def payment_indicators_def ustr_def)
  then have "py_in [24050, 20184] (concat ns) \<or> py_in [24453, 20320] (concat ns) \<or>
      py_in [35760] (concat ns) \<or> py_in [84] (concat ns)"
    using in_msg py_in_trans by blast
  then show False
    using negative_no_paid_pair [OF assms(1)] negative_no_await_pair [OF assms(1)]
      negative_no_char [OF assms(1)]
    by blast
qed

lemma trigger_loop_ex:
  "is_auto_delivery_trigger_loop ks m \<longleftrightarrow> (\<exists>k\<in>set ks. py_in k m)"
  by (induction ks) auto

text \<open>
  C8. No trigger keyword and no payment indicator occurs inside a negative status
  phrase, and a message made only of negative status phrases, one after another,
  sets off neither the trigger test nor the payment detection.
\<close>

theorem positive_phrases_not_in_negative:
  "(\<forall>p \<in> set (auto_delivery_keywords @ payment_indicators).
      \<forall>n \<in> set negative_phrases. \<not> py_in p n) \<and>
   (\<forall>ns. set ns \<subseteq> set negative_phrases \<longrightarrow>
      \<not> is_auto_delivery_trigger (concat ns) \<and> \<not> detect_payment_str (concat ns))"
proof (intro conjI ballI allI impI)
  fix p n
  assume p: "p \<in> set (auto_delivery_keywords @ payment_indicators)"
    and n: "n \<in> set negative_phrases"
  from n have "set [n] \<subseteq> set negative_phrases" by simp
  from negative_only_no_positive [OF this p] show "\<not> py_in p n" by simp
next
  fix ns
  assume ns: "set ns \<subseteq> set negative_phrases"
  show "\<not> is_auto_delivery_trigger (concat ns)"
    using negative_only_no_positive [OF ns]
    by (auto simp: is_auto_delivery_trigger_def trigger_loop_ex)
  show "\<not> detect_payment_str (concat ns)"
    using negative_only_no_positive [OF ns]
    by (auto simp: detect_payment_str_def list_ex_iff)
qed

theorem positive_phrases_not_in_negative_witness:
  "[31561, 24453, 21334, 23478, 21457, 36135] \<in> set negative_phrases \<and>
   [31561, 24453, 20320, 21457, 36135] \<in> set (auto_delivery_keywords @ payment_indicators) \<and>
   \<not> py_in [31561, 24453, 20320, 21457, 36135] [31561, 24453, 21334, 23478, 21457, 36135] \<and>
   set [[91, 25105, 24050, 25293, 19979, 65292, 24453, 20184, 27454, 93], [31561, 24453, 21334, 23478, 21457, 36135]] \<subseteq> set negative_phrases \<and>
   \<not> is_auto_delivery_trigger (concat [[91, 25105, 24050, 25293, 19979, 65292, 24453, 20184, 27454, 93], [31561, 24453, 21334, 23478, 21457, 36135]]) \<and>
   \<not> detect_payment_str (concat [[91, 25105, 24050, 25293, 19979, 65292, 24453, 20184, 27454, 93], [31561, 24453, 21334, 23478, 21457, 36135]])"
proof -
  have a: "[31561, 24453, 21334, 23478, 21457, 36135] \<in> set negative_phrases" "[91, 25105, 24050, 25293, 19979, 65292, 24453, 20184, 27454, 93] \<in> set negative_phrases"
    by (simp_all add: negative_phrases_def)
  have b: "[31561, 24453, 20320, 21457, 36135] \<in> set (auto_delivery_keywords @ payment_indicators)"
    by (simp add: auto_delivery_keywords_def payment_indicators_def)
  from a have c: "set [[91, 25105, 24050, 25293, 19979, 65292, 24453, 20184, 27454, 93], [31561, 24453, 21334, 23478, 21457, 36135]] \<subseteq> set negative_phrases" by simp
  show ?thesis
    using a b c positive_phrases_not_in_negative by blast
qed

lemma try_counts_Some:
  "try_counts f least n = Some r \<Longrightarrow> \<exists>k. least \<le> k \<and> k \<le> n \<and> f k = Some r"
proof (induction n)
  case 0
  then show ?case by (auto split: if_splits)
next
  case (Suc n)
  show ?case
  proof (cases "f (Suc n)")
    case None
    with Suc.prems have "try_counts f least n = Some r"
      by (auto split: if_splits)
    with Suc.IH obtain k where "least \<le> k" "k \<le> n" "f k = Some r" by blast
    then show ?thesis by (intro exI [of _ k]) simp
  next
    case (Some a)
    with Suc.prems have "least \<le> Suc n" "f (Suc n) = Some r"
      by (auto split: if_splits)
    then show ?thesis by blast
  qed
qed

lemma take_takeWhile_all:
  "k \<le> length (takeWhile P s) \<Longrightarrow> \<forall>c\<in>set (take k s). P c"
proof (induction s arbitrary: k)
  case Nil
  then show ?case by simp
next
  case (Cons x xs)
  show ?case
  proof (cases k)
    case 0
    then show ?thesis by simp
  next
    case (Suc j)
    with Cons.prems have px: "P x" by (cases "P x") simp_all
    with Cons.prems Suc have "j \<le> length (takeWhile P xs)" by simp
    from Cons.IH [OF this] px Suc show ?thesis by simp
  qed
qed

lemma match_items_group:
  "match_items isd p s = Some (Some g, len) \<Longrightarrow>
     \<exists>a\<in>set p. grp a \<and> lo a \<le> length g \<and> (\<forall>c\<in>set g. in_class isd (cls a) c)"
proof (induction p arbitrary: s g len)
  case Nil
  then show ?case by simp
next
  case (Cons a as)
  let ?F = "\<lambda>k. case match_items isd as (drop k s) of
               None \<Rightarrow> None
             | Some (cap, len') \<Rightarrow> Some (if grp a then Some (take k s) else cap, k + len')"
  let ?n = "length (takeWhile (in_class isd (cls a)) s)"
  let ?m = "case hi a of None \<Rightarrow> ?n | Some h \<Rightarrow> min ?n h"
  have mn: "?m \<le> ?n" by (simp split: option.splits)
  from Cons.prems have "try_counts ?F (lo a) ?m = Some (Some g, len)"
    by (simp add: Let_def)
  from try_counts_Some [OF this] obtain k where k: "lo a \<le> k" "k \<le> ?m"
    and f: "?F k = Some (Some g, len)" by blast
  from f obtain cap len' where r: "match_items isd as (drop k s) = Some (cap, len')"
    and g: "(if grp a then Some (take k s) else cap) = Some g"
    by (auto split: option.splits)
  show ?case
  proof (cases "grp a")
    case True
    with g have gk: "g = take k s" by simp
    have kn: "k \<le> length (takeWhile (in_class isd (cls a)) s)"
      using k mn by linarith
    then have "k \<le> length s"
      using length_takeWhile_le [of "in_class isd (cls a)" s] by linarith
    then have "length g = k" by (simp add: gk)
    moreover have "\<forall>c\<in>set g. in_class isd (cls a) c"
      unfolding gk using kn by (rule take_takeWhile_all)
    ultimately show ?thesis using True k by auto
  next
    case False
    with g r have "match_items isd as (drop k s) = Some (Some g, len')" by simp
    from Cons.IH [OF this] show ?thesis by auto
  qed
qed

lemma match_items_has_group:
  "match_items isd p s = Some (cap, len) \<Longrightarrow> \<exists>a\<in>set p. grp a \<Longrightarrow> cap \<noteq> None"
proof (induction p arbitrary: s cap len)
  case Nil
  then show ?case by simp
next
  case (Cons a as)
  let ?F = "\<lambda>k. case match_items isd as (drop k s) of
               None \<Rightarrow> None
             | Some (cap', len') \<Rightarrow> Some (if grp a then Some (take k s) else cap', k + len')"
  let ?n = "length (takeWhile (in_class isd (cls a)) s)"
  let ?m = "case hi a of None \<Rightarrow> ?n | Some h \<Rightarrow> min ?n h"
  from Cons.prems(1) have "try_counts ?F (lo a) ?m = Some (cap, len)"
    by (simp add: Let_def)
  from try_counts_Some [OF this] obtain k where f: "?F k = Some (cap, len)"
    by blast
  from f obtain cap' len' where r: "match_items isd as (drop k s) = Some (cap', len')"
    and g: "(if grp a then Some (take k s) else cap') = cap"
    by (auto split: option.splits)
  show ?case
  proof (cases "grp a")
    case True
    with g show ?thesis by auto
  next
    case False
    with Cons.prems(2) have "\<exists>a\<in>set as. grp a" by simp
    from Cons.IH [OF r this] g False show ?thesis by simp
  qed
qed

lemma findall_search:
  "(case findall isd p s 0 of [] \<Rightarrow> None | m # ms \<Rightarrow> Some m) =
     map_option (\<lambda>cap. case cap of None \<Rightarrow> [] | Some g \<Rightarrow> g) (re_search isd p s)"
proof (induction s)
  case Nil
  show ?case by (cases "match_items isd p []") auto
next
  case (Cons c cs)
  show ?case
  proof (cases "match_items isd p (c # cs)")
    case None
    with Cons show ?thesis by simp
  next
    case (Some r)
    then show ?thesis by (cases r) simp
  qed
qed


lemma re_search_match:
  "re_search isd p s = Some cap \<Longrightarrow> \<exists>s' len. match_items isd p s' = Some (cap, len)"
proof (induction s)
  case Nil
  then show ?case by (cases "match_items isd p []") (auto intro: exI [of _ "[]"])
next
  case (Cons c cs)
  show ?case
  proof (cases "match_items isd p (c # cs)")
    case None
    with Cons show ?thesis by simp
  next
    case (Some r)
    with Cons.prems show ?thesis by (cases r) (auto intro: exI [of _ "c # cs"])
  qed
qed

lemma first_group_digits:
  assumes "first_group isd p s = Some x"
    and "\<exists>a\<in>set p. grp a"
    and "\<forall>a\<in>set p. grp a \<longrightarrow> cls a = Digit \<and> 10 \<le> lo a"
  shows "10 \<le> length x \<and> (\<forall>c\<in>set x. isd c)"
proof -
  from assms(1) obtain cap where c: "re_search isd p s = Some cap"
    and x: "x = (case cap of None \<Rightarrow> [] | Some g \<Rightarrow> g)"
    by (auto simp: first_group_def)
  from re_search_match [OF c] obtain s' len where m: "match_items isd p s' = Some (cap, len)"
    by blast
  from match_items_has_group [OF m assms(2)] obtain g where g: "cap = Some g" by auto
  from match_items_group [OF m [unfolded g]] obtain a where
    "a \<in> set p" "grp a" "lo a \<le> length g" "\<forall>c\<in>set g. in_class isd (cls a) c"
    by blast
  with assms(3) have "10 \<le> length g" "\<forall>c\<in>set g. isd c" by force+
  with x g show ?thesis by simp
qed

lemma scan_patterns_Cons:
  "scan_patterns isd (p # ps) s =
     (case first_group isd p s of None \<Rightarrow> scan_patterns isd ps s | Some g \<Rightarrow> Some g)"
proof -
  have "first_group isd p s = (case findall isd p s 0 of [] \<Rightarrow> None | m # ms \<Rightarrow> Some m)"
    by (simp add: first_group_def findall_search)
  then show ?thesis by (cases "findall isd p s 0") simp_all
qed

lemma patterns_groups:
  "p \<in> set patterns \<Longrightarrow>
     (\<exists>a\<in>set p. grp a) \<and> (\<forall>a\<in>set p. grp a \<longrightarrow> cls a = Digit \<and> 10 \<le> lo a)"
  by (auto simp: patterns_def lit_def)

lemma scan_patterns_digits:
  assumes "scan_patterns isd ps s = Some x" "set ps \<subseteq> set patterns"
  shows "10 \<le> length x \<and> (\<forall>c\<in>set x. isd c)"
  using assms
proof (induction ps)
  case Nil
  then show ?case by simp
next
  case (Cons p ps)
  show ?case
  proof (cases "first_group isd p s")
    case None
    with Cons.prems(1) have "scan_patterns isd ps s = Some x"
      by (simp only: scan_patterns_Cons option.case)
    with Cons.IH Cons.prems(2) show ?thesis by simp
  next
    case (Some g)
    with Cons.prems(1) have "first_group isd p s = Some x"
      by (simp only: scan_patterns_Cons option.case)
    moreover from Cons.prems(2) have "p \<in> set patterns" by simp
    ultimately show ?thesis using patterns_groups first_group_digits by blast
  qed
qed

lemma in_class_cong: "isd c = isd' c \<Longrightarrow> in_class isd k c = in_class isd' k c"
  by (cases k) simp_all

lemma match_items_cong:
  "\<forall>c\<in>set s. isd c = isd' c \<Longrightarrow> match_items isd p s = match_items isd' p s"
proof (induction p arbitrary: s)
  case Nil
  show ?case by simp
next
  case (Cons a as)
  have tw: "takeWhile (in_class isd (cls a)) s = takeWhile (in_class isd' (cls a)) s"
  proof (rule takeWhile_cong [OF refl])
    fix x assume "x \<in> set s"
    with Cons.prems have "isd x = isd' x" by blast
    then show "in_class isd (cls a) x = in_class isd' (cls a) x" by (rule in_class_cong)
  qed
  have "match_items isd as (drop k s) = match_items isd' as (drop k s)" for k
    using Cons.prems by (intro Cons.IH) (auto dest: in_set_dropD)
  then show ?case by (simp add: tw)
qed

lemma re_search_cong:
  "\<forall>c\<in>set s. isd c = isd' c \<Longrightarrow> re_search isd p s = re_search isd' p s"
proof (induction s)
  case Nil
  have "match_items isd p [] = match_items isd' p []"
    by (rule match_items_cong) simp
  then show ?case by (simp only: re_search.simps)
next
  case (Cons c cs)
  then have r: "re_search isd p cs = re_search isd' p cs" by simp
  have m: "match_items isd p (c # cs) = match_items isd' p (c # cs)"
    using Cons.prems by (rule match_items_cong)
  show ?case by (simp only: re_search.simps r m)
qed

lemma scan_patterns_cong:
  assumes "\<forall>c\<in>set s. isd c = isd' c"
  shows "scan_patterns isd ps s = scan_patterns isd' ps s"
proof (induction ps)
  case Nil
  show ?case by simp
next
  case (Cons p ps)
  have "first_group isd p s = first_group isd' p s"
    unfolding first_group_def by (simp only: re_search_cong [OF assms, of p])
  with Cons show ?case by (simp only: scan_patterns_Cons)
qed

lemma ustr_below_256: "c \<in> set (ustr s) \<Longrightarrow> c < 256"
proof -
  have "(of_char x :: nat) < 256" for x
  proof -
    have "(of_char x :: nat) mod 256 = of_char x" by (rule of_char_mod_256)
    moreover have "(of_char x :: nat) mod 256 < 256" by simp
    ultimately show ?thesis by simp
  qed
  then show "c \<in> set (ustr s) \<Longrightarrow> c < 256" by (auto simp: ustr_def)
qed

lemma scan_patterns_ascii:
  assumes "\<forall>c<256. isd c = ascii_digit c"
  shows "scan_patterns isd ps (ustr s) = scan_patterns ascii_digit ps (ustr s)"
  using assms by (intro scan_patterns_cong) (auto dest: ustr_below_256)

lemma extract_order_id_dict:
  "py_get message (ustr ''1'') (PDict []) = Inr m1 \<Longrightarrow>
   extract_order_id lib message =
     Inr (if no_id (structured_order_id lib m1) then
            (case py_str lib message of
               Inl ex \<Rightarrow> structured_order_id lib m1
             | Inr message_str \<Rightarrow>
                 (case scan_patterns (is_decimal lib) patterns message_str of
                    None \<Rightarrow> structured_order_id lib m1
                  | Some m \<Rightarrow> Some m))
          else structured_order_id lib m1)"
  by (simp add: extract_order_id_def extract_order_id_body_def bind_exn_def method3_def Let_def
      split: sum.splits option.splits)


lemma extract_order_id_not_dict:
  "\<not> is_dict message \<Longrightarrow> extract_order_id lib message = Inr None"
  by (cases message)
     (simp_all add: extract_order_id_def extract_order_id_body_def bind_exn_def py_get_def)


lemma py_get_is_dict: "py_get message k dflt = Inr m1 \<Longrightarrow> is_dict message"
  by (cases message) (simp_all add: py_get_def)

lemma scan_patterns_four:
  "scan_patterns isd patterns s =
     (case first_group isd (patterns ! 0) s of Some g \<Rightarrow> Some g | None \<Rightarrow>
      case first_group isd (patterns ! 1) s of Some g \<Rightarrow> Some g | None \<Rightarrow>
      case first_group isd (patterns ! 2) s of Some g \<Rightarrow> Some g | None \<Rightarrow>
      first_group isd (patterns ! 3) s)"
proof -
  obtain p0 p1 p2 p3 where p: "patterns = [p0, p1, p2, p3]"
    by (simp add: patterns_def)
  have e: "scan_patterns isd [] s = None" by simp
  show ?thesis
    unfolding p
    by (simp only: scan_patterns_Cons e nth_Cons_0 nth_Cons_Suc One_nat_def
          numeral_2_eq_2 numeral_3_eq_3 split: option.splits)
       (simp split: option.splits)
qed

text \<open>The structured step never yields the empty string.\<close>

lemma search_group_nonempty:
  assumes "search_group lib p x = Inr (Some cap)" "\<exists>a\<in>set p. grp a"
    "\<forall>a\<in>set p. grp a \<longrightarrow> 1 \<le> lo a"
  shows "\<exists>g. cap = Some g \<and> g \<noteq> []"
proof -
  from assms(1) obtain s where "re_search (is_decimal lib) p s = Some cap"
    by (cases x) (auto simp: search_group_def)
  from re_search_match [OF this] obtain s' len where
    m: "match_items (is_decimal lib) p s' = Some (cap, len)" by blast
  from match_items_has_group [OF m assms(2)] obtain g where g: "cap = Some g" by auto
  from match_items_group [OF m [unfolded g]] assms(3) have "1 \<le> length g" by force
  with g show ?thesis by auto
qed

lemma url_groups:
  "\<exists>a\<in>set url_orderId. grp a" "\<forall>a\<in>set url_orderId. grp a \<longrightarrow> 1 \<le> lo a"
  "\<exists>a\<in>set url_order_detail. grp a" "\<forall>a\<in>set url_order_detail. grp a \<longrightarrow> 1 \<le> lo a"
  by (auto simp: url_orderId_def url_order_detail_def lit_def)

lemma method1_nonempty: "method1 lib cjs = Inr r \<Longrightarrow> r \<noteq> Some []"
proof
  assume m: "method1 lib cjs = Inr r" and e: "r = Some []"
  have a: "search_group lib url_orderId x = Inr (Some cap) \<Longrightarrow> cap \<noteq> Some [] \<and> cap \<noteq> None" for x cap
    using search_group_nonempty [OF _ url_groups(1,2)] by fastforce
  have b: "search_group lib url_order_detail x = Inr (Some cap) \<Longrightarrow> cap \<noteq> Some [] \<and> cap \<noteq> None" for x cap
    using search_group_nonempty [OF _ url_groups(3,4)] by fastforce
  from m e show False
    unfolding method1_def bind_exn_def Let_def no_id_def
    by (auto split: sum.splits if_splits option.splits dest: a b)
qed

lemma structured_nonempty: "structured_order_id lib m1 \<noteq> Some []"
  using method1_nonempty [of lib "content_json_str_of m1"]
  by (auto simp: structured_order_id_def Let_def split: sum.splits)

lemma no_id_structured: "no_id (structured_order_id lib m1) \<longleftrightarrow> structured_order_id lib m1 = None"
  using structured_nonempty [of lib m1] by (auto simp: no_id_def)

lemma scan_patterns_below_256:
  assumes "\<forall>c<256. isd c = ascii_digit c" "\<forall>c\<in>set s. c < 256"
  shows "scan_patterns isd ps s = scan_patterns ascii_digit ps s"
  using assms by (intro scan_patterns_cong) auto

text \<open>
  C7 (amended). For an event that is a dictionary and whose structured extraction
  yields no order id, the classifier prints the whole event and the scan of that text
  decides the result; an id from the structured extraction is returned as it is and is
  never empty; when the event cannot be printed the result is no id. An event that is
  not a dictionary is answered with no id and is not scanned. The scan goes through
  the four patterns of \<open>patterns\<close> in their order and returns the group of the
  leftmost match of the first pattern that matches anywhere; whatever it returns has
  at least 10 characters, all decimal digits. Matches of different patterns are not
  compared: each earlier pattern wins over a later one wherever they match, the
  leftmost match of a pattern wins over its later ones, and 9 digits match nothing.
\<close>

theorem fallback_scan_order:
  "(py_get message (ustr ''1'') (PDict []) = Inr m1 \<and> structured_order_id lib m1 = None \<and>
    py_str lib message = Inr message_str \<longrightarrow>
      extract_order_id lib message =
        Inr (scan_patterns (is_decimal lib) patterns message_str)) \<and>
   (py_get message (ustr ''1'') (PDict []) = Inr m1 \<and> structured_order_id lib m1 = Some y \<longrightarrow>
      y \<noteq> [] \<and> extract_order_id lib message = Inr (Some y)) \<and>
   (py_get message (ustr ''1'') (PDict []) = Inr m1 \<and> structured_order_id lib m1 = None \<and>
    py_str lib message = Inl ex \<longrightarrow>
      extract_order_id lib message = Inr None) \<and>
   (\<not> is_dict message \<longrightarrow> extract_order_id lib message = Inr None) \<and>
   length patterns = 4 \<and>
   scan_patterns isd patterns s =
     (case first_group isd (patterns ! 0) s of Some g \<Rightarrow> Some g | None \<Rightarrow>
      case first_group isd (patterns ! 1) s of Some g \<Rightarrow> Some g | None \<Rightarrow>
      case first_group isd (patterns ! 2) s of Some g \<Rightarrow> Some g | None \<Rightarrow>
      first_group isd (patterns ! 3) s) \<and>
   (scan_patterns isd patterns s = Some x \<longrightarrow> 10 \<le> length x \<and> (\<forall>c\<in>set x. isd c)) \<and>
   ((\<forall>c<256. isd c = ascii_digit c) \<longrightarrow>
      scan_patterns isd patterns (ustr ''bizOrderId=1111111111 orderId=2222222222'')
        = Some (ustr ''2222222222'') \<and>
      scan_patterns isd patterns (ustr ''orderId=1111111111&orderId:2222222222'')
        = Some (ustr ''1111111111'') \<and>
      scan_patterns isd patterns (ustr ''orderId=123456789'')
        = None \<and>
      scan_patterns isd patterns (ustr ''order_detail?id=4502061577026003543&role=seller'')
        = Some (ustr ''4502061577026003543'') \<and>
      scan_patterns isd patterns (ustr ''order_detail?id=123456789'')
        = None \<and>
      scan_patterns isd patterns (34 # ustr ''id'' @ 34 # ustr '' :  '' @ 34 # ustr ''12345678901'' @ [34])
        = Some (ustr ''12345678901'') \<and>
      scan_patterns isd patterns (34 # ustr ''id'' @ 34 # ustr '':'' @ 34 # ustr ''3333333333'' @ 34 # ustr '' order_detail?id=2222222222'')
        = Some (ustr ''2222222222'') \<and>
      scan_patterns isd patterns (ustr ''bizOrderId=4444444444 '' @ 34 # ustr ''id'' @ 34 # ustr '': 3333333333'')
        = Some (ustr ''3333333333'') \<and>
      scan_patterns isd patterns (ustr ''bizOrderId:4444444444'')
        = Some (ustr ''4444444444''))"
proof (intro conjI impI)
  assume h: "py_get message (ustr ''1'') (PDict []) = Inr m1 \<and> structured_order_id lib m1 = None \<and>
    py_str lib message = Inr message_str"
  then show "extract_order_id lib message =
        Inr (scan_patterns (is_decimal lib) patterns message_str)"
    by (simp add: extract_order_id_dict no_id_def split: option.splits)
next
  assume h: "py_get message (ustr ''1'') (PDict []) = Inr m1 \<and> structured_order_id lib m1 = Some y"
  then show "y \<noteq> []" using structured_nonempty [of lib m1] by auto
  with h show "extract_order_id lib message = Inr (Some y)"
    by (simp add: extract_order_id_dict no_id_def)
next
  assume h: "py_get message (ustr ''1'') (PDict []) = Inr m1 \<and> structured_order_id lib m1 = None \<and>
    py_str lib message = Inl ex"
  then show "extract_order_id lib message = Inr None"
    by (simp add: extract_order_id_dict)
next
  assume "\<not> is_dict message"
  then show "extract_order_id lib message = Inr None" by (rule extract_order_id_not_dict)
next
  show "length patterns = 4" by (simp add: patterns_def)
next
  show "scan_patterns isd patterns s =
     (case first_group isd (patterns ! 0) s of Some g \<Rightarrow> Some g | None \<Rightarrow>
      case first_group isd (patterns ! 1) s of Some g \<Rightarrow> Some g | None \<Rightarrow>
      case first_group isd (patterns ! 2) s of Some g \<Rightarrow> Some g | None \<Rightarrow>
      first_group isd (patterns ! 3) s)"
    by (rule scan_patterns_four)
next
  assume "scan_patterns isd patterns s = Some x"
  then show "10 \<le> length x" "\<forall>c\<in>set x. isd c"
    using scan_patterns_digits [of isd patterns s x] by simp_all
next
  assume a: "\<forall>c<256. isd c = ascii_digit c"
  have "scan_patterns isd patterns (ustr ''bizOrderId=1111111111 orderId=2222222222'')
      = scan_patterns ascii_digit patterns (ustr ''bizOrderId=1111111111 orderId=2222222222'')"
    by (rule scan_patterns_below_256 [OF a]) (simp add: ustr_def)
  also have "\<dots> = Some (ustr ''2222222222'')"
    by code_simp
  finally show "scan_patterns isd patterns (ustr ''bizOrderId=1111111111 orderId=2222222222'')
        = Some (ustr ''2222222222'')" .
  have "scan_patterns isd patterns (ustr ''orderId=1111111111&orderId:2222222222'')
      = scan_patterns ascii_digit patterns (ustr ''orderId=1111111111&orderId:2222222222'')"
    by (rule scan_patterns_below_256 [OF a]) (simp add: ustr_def)
  also have "\<dots> = Some (ustr ''1111111111'')"
    by code_simp
  finally show "scan_patterns isd patterns (ustr ''orderId=1111111111&orderId:2222222222'')
        = Some (ustr ''1111111111'')" .
  have "scan_patterns isd patterns (ustr ''orderId=123456789'')
      = scan_patterns ascii_digit patterns (ustr ''orderId=123456789'')"
    by (rule scan_patterns_below_256 [OF a]) (simp add: ustr_def)
  also have "\<dots> = None"
    by code_simp
  finally show "scan_patterns isd patterns (ustr ''orderId=123456789'')
        = None" .
  have "scan_patterns isd patterns (ustr ''order_detail?id=4502061577026003543&role=seller'')
      = scan_patterns ascii_digit patterns (ustr ''order_detail?id=4502061577026003543&role=seller'')"
    by (rule scan_patterns_below_256 [OF a]) (simp add: ustr_def)
  also have "\<dots> = Some (ustr ''4502061577026003543'')"
    by code_simp
  finally show "scan_patterns isd patterns (ustr ''order_detail?id=4502061577026003543&role=seller'')
        = Some (ustr ''4502061577026003543'')" .
  have "scan_patterns isd patterns (ustr ''order_detail?id=123456789'')
      = scan_patterns ascii_digit patterns (ustr ''order_detail?id=123456789'')"
    by (rule scan_patterns_below_256 [OF a]) (simp add: ustr_def)
  also have "\<dots> = None"
    by code_simp
  finally show "scan_patterns isd patterns (ustr ''order_detail?id=123456789'')
        = None" .
  have "scan_patterns isd patterns (34 # ustr ''id'' @ 34 # ustr '' :  '' @ 34 # ustr ''12345678901'' @ [34])
      = scan_patterns ascii_digit patterns (34 # ustr ''id'' @ 34 # ustr '' :  '' @ 34 # ustr ''12345678901'' @ [34])"
    by (rule scan_patterns_below_256 [OF a]) (simp add: ustr_def)
  also have "\<dots> = Some (ustr ''12345678901'')"
    by code_simp
  finally show "scan_patterns isd patterns (34 # ustr ''id'' @ 34 # ustr '' :  '' @ 34 # ustr ''12345678901'' @ [34])
        = Some (ustr ''12345678901'')" .
  have "scan_patterns isd patterns (34 # ustr ''id'' @ 34 # ustr '':'' @ 34 # ustr ''3333333333'' @ 34 # ustr '' order_detail?id=2222222222'')
      = scan_patterns ascii_digit patterns (34 # ustr ''id'' @ 34 # ustr '':'' @ 34 # ustr ''3333333333'' @ 34 # ustr '' order_detail?id=2222222222'')"
    by (rule scan_patterns_below_256 [OF a]) (simp add: ustr_def)
  also have "\<dots> = Some (ustr ''2222222222'')"
    by code_simp
  finally show "scan_patterns isd patterns (34 # ustr ''id'' @ 34 # ustr '':'' @ 34 # ustr ''3333333333'' @ 34 # ustr '' order_detail?id=2222222222'')
        = Some (ustr ''2222222222'')" .
  have "scan_patterns isd patterns (ustr ''bizOrderId=4444444444 '' @ 34 # ustr ''id'' @ 34 # ustr '': 3333333333'')
      = scan_patterns ascii_digit patterns (ustr ''bizOrderId=4444444444 '' @ 34 # ustr ''id'' @ 34 # ustr '': 3333333333'')"
    by (rule scan_patterns_below_256 [OF a]) (simp add: ustr_def)
  also have "\<dots> = Some (ustr ''3333333333'')"
    by code_simp
  finally show "scan_patterns isd patterns (ustr ''bizOrderId=4444444444 '' @ 34 # ustr ''id'' @ 34 # ustr '': 3333333333'')
        = Some (ustr ''3333333333'')" .
  have "scan_patterns isd patterns (ustr ''bizOrderId:4444444444'')
      = scan_patterns ascii_digit patterns (ustr ''bizOrderId:4444444444'')"
    by (rule scan_patterns_below_256 [OF a]) (simp add: ustr_def)
  also have "\<dots> = Some (ustr ''4444444444'')"
    by code_simp
  finally show "scan_patterns isd patterns (ustr ''bizOrderId:4444444444'')
        = Some (ustr ''4444444444'')" .
qed

text \<open>
  C7 as stated lets the scan run whenever the structured extraction yields no id. The
  event \<open>['orderId=1234567890']\<close> is a list: \<open>message.get\<close> raises, the outer
  \<open>except\<close> returns \<open>None\<close>, and the id that the scan of the printed event would
  find is not returned.
\<close>

theorem fallback_scan_order_counterexample:
  "\<not> is_dict list_message \<and>
   extract_order_id test_lib list_message = Inr None \<and>
   py_str test_lib list_message = Inr list_message_str \<and>
   scan_patterns (is_decimal test_lib) patterns list_message_str = Some (ustr ''1234567890'')"
proof -
  have "scan_patterns ascii_digit patterns list_message_str = Some (ustr ''1234567890'')"
    by code_simp
  moreover have "extract_order_id test_lib list_message = Inr None"
    by (simp add: extract_order_id_not_dict list_message_def)
  moreover have "py_str test_lib list_message = Inr list_message_str"
    by (simp add: test_lib_def list_message_def test_message_def json_fail_message_def)
  ultimately show ?thesis by (simp add: test_lib_def list_message_def)
qed

lemma test_message_get:
  "py_get test_message (ustr ''1'') (PDict []) = Inr (PStr (ustr ''some_string''))"
  by (simp add: py_get_def test_message_def)

lemma structured_not_dict: "\<not> is_dict m1 \<Longrightarrow> structured_order_id lib m1 = None"
  by (simp add: structured_order_id_def content_json_str_of_def)

lemma button_structured:
  "structured_order_id test_lib button_message_1 = Some (ustr ''4502061577026003543'')"
  by code_simp




lemma huge_int_facts:
  "py_get huge_int_message (ustr ''1'') (PDict []) = Inr (PInt huge_int)"
  "structured_order_id test_lib (PInt huge_int) = None"
  "py_str test_lib huge_int_message = Inl ValueError"
  by (simp_all add: py_get_def huge_int_message_def structured_not_dict test_lib_def
      test_message_def json_fail_message_def list_message_def)

lemma list_message_facts:
  "\<not> is_dict list_message" "py_str test_lib list_message = Inr list_message_str"
  by (simp_all add: list_message_def test_lib_def test_message_def json_fail_message_def)

lemma test_message_facts:
  "structured_order_id test_lib (PStr (ustr ''some_string'')) = None"
  "py_str test_lib test_message = Inr test_message_str"
  by (simp_all add: structured_not_dict test_lib_def)

lemma button_message_get:
  "py_get button_message (ustr ''1'') (PDict []) = Inr button_message_1"
  by (simp add: py_get_def button_message_def)

theorem fallback_scan_order_witness:
  "py_get test_message (ustr ''1'') (PDict []) = Inr (PStr (ustr ''some_string'')) \<and>
   structured_order_id test_lib (PStr (ustr ''some_string'')) = None \<and>
   py_str test_lib test_message = Inr test_message_str \<and>
   extract_order_id test_lib test_message = Inr (Some (ustr ''1234567890123'')) \<and>
   py_get button_message (ustr ''1'') (PDict []) = Inr button_message_1 \<and>
   structured_order_id test_lib button_message_1 = Some (ustr ''4502061577026003543'') \<and>
   extract_order_id test_lib button_message = Inr (Some (ustr ''4502061577026003543'')) \<and>
   py_get huge_int_message (ustr ''1'') (PDict []) = Inr (PInt huge_int) \<and>
   structured_order_id test_lib (PInt huge_int) = None \<and>
   py_str test_lib huge_int_message = Inl ValueError \<and>
   extract_order_id test_lib huge_int_message = Inr None \<and>
   \<not> is_dict list_message \<and>
   extract_order_id test_lib list_message = Inr None \<and>
   scan_patterns ascii_digit patterns test_message_str = Some (ustr ''1234567890123'') \<and>
   (10::nat) \<le> length (ustr ''1234567890123'') \<and>
   scan_patterns ascii_digit patterns (ustr ''bizOrderId=1111111111 orderId=2222222222'')
     = Some (ustr ''2222222222'')"
proof -
  have s: "scan_patterns ascii_digit patterns test_message_str = Some (ustr ''1234567890123'')"
    by code_simp
  have d: "is_decimal test_lib = ascii_digit" by (simp add: test_lib_def)
  show ?thesis
    using s d test_message_get test_message_facts button_message_get button_structured
      huge_int_facts list_message_facts
      fallback_scan_order [of test_message "PStr (ustr ''some_string'')" test_lib
                              test_message_str "ustr ''4502061577026003543''" ValueError
                              ascii_digit test_message_str "ustr ''1234567890123''"]
      fallback_scan_order [of button_message button_message_1 test_lib
                              test_message_str "ustr ''4502061577026003543''" ValueError
                              ascii_digit test_message_str "ustr ''1234567890123''"]
      fallback_scan_order [of huge_int_message "PInt huge_int" test_lib
                              test_message_str "ustr ''4502061577026003543''" ValueError
                              ascii_digit test_message_str "ustr ''1234567890123''"]
      fallback_scan_order [of list_message "PInt huge_int" test_lib
                              test_message_str "ustr ''4502061577026003543''" ValueError
                              ascii_digit test_message_str "ustr ''1234567890123''"]
    by simp
qed






end
